theory Spec2Isabelle
  imports Main "HOL-Library.Word" "HOL-Library.Monad_Syntax"
begin

unbundle bit_operations_syntax

section \<open>The BCM2835 Unicam capture driver (bcm2835-unicam.c)\<close>

text \<open>
  The driver's C integers are machine words: \<open>u8\<close>, \<open>u32\<close> (also \<open>unsigned int\<close>) and
  \<open>u64\<close>. Return codes (\<open>int\<close>, zero or a negative errno) are only compared, never
  computed with, and are kept as \<open>int\<close>.
\<close>

type_synonym u8 = "8 word"
type_synonym u32 = "32 word"
type_synonym u64 = "64 word"

definition EINVAL :: int where "EINVAL = 22"
definition ENOIOCTLCMD :: int where "ENOIOCTLCMD = 515"

subsection \<open>Limits of the stride register\<close>

definition MAX_ENUM_MBUS_CODE :: nat where "MAX_ENUM_MBUS_CODE = 128"

definition BPL_ALIGNMENT :: u32 where "BPL_ALIGNMENT = 16"
definition MAX_BYTESPERLINE :: u32 where "MAX_BYTESPERLINE = push_bit 16 1 - BPL_ALIGNMENT"
definition MAX_WIDTH :: u32 where "MAX_WIDTH = MAX_BYTESPERLINE div 4"
definition MAX_HEIGHT :: u32 where "MAX_HEIGHT = MAX_WIDTH"
definition MIN_WIDTH :: u32 where "MIN_WIDTH = 16"
definition MIN_HEIGHT :: u32 where "MIN_HEIGHT = 16"
definition HEIGHT_ALIGNMENT :: u32 where "HEIGHT_ALIGNMENT = 16"

text \<open>
  Modelled from the spec: the kernel macro \<open>ALIGN(x, a)\<close> (linux/kernel.h) is not among
  the sources. It rounds \<open>x\<close> up to the next multiple of the power of two \<open>a\<close>, in the
  type of \<open>x\<close>: \<open>(x + (a - 1)) & ~(a - 1)\<close>.
\<close>

definition ALIGN :: "u32 \<Rightarrow> u32 \<Rightarrow> u32" where
  "ALIGN x a = (x + (a - 1)) AND NOT (a - 1)"

subsection \<open>The format table\<close>

text \<open>
  The V4L2 pixel formats and media bus codes are 32-bit constants of videodev2.h and
  media-bus-format.h, which are not among the sources. The driver only compares them, so
  each named constant is a constructor. \<open>PIX_FMT_0\<close> is the value 0 that an initialiser
  leaves in a field it does not mention ("0 if n/a"); \<open>PIX_FMT_other\<close> and
  \<open>MEDIA_BUS_FMT_other\<close> are the values the table does not name.
\<close>

datatype v4l2_pix_fmt =
    PIX_FMT_0
  | V4L2_PIX_FMT_YUYV | V4L2_PIX_FMT_UYVY | V4L2_PIX_FMT_YVYU | V4L2_PIX_FMT_VYUY
  | V4L2_PIX_FMT_RGB565 | V4L2_PIX_FMT_RGB565X | V4L2_PIX_FMT_RGB555 | V4L2_PIX_FMT_RGB555X
  | V4L2_PIX_FMT_RGB24 | V4L2_PIX_FMT_BGR24 | V4L2_PIX_FMT_RGB32
  | V4L2_PIX_FMT_SBGGR8 | V4L2_PIX_FMT_SGBRG8 | V4L2_PIX_FMT_SGRBG8 | V4L2_PIX_FMT_SRGGB8
  | V4L2_PIX_FMT_SBGGR10P | V4L2_PIX_FMT_SGBRG10P | V4L2_PIX_FMT_SGRBG10P | V4L2_PIX_FMT_SRGGB10P
  | V4L2_PIX_FMT_SBGGR10 | V4L2_PIX_FMT_SGBRG10 | V4L2_PIX_FMT_SGRBG10 | V4L2_PIX_FMT_SRGGB10
  | V4L2_PIX_FMT_SBGGR12P | V4L2_PIX_FMT_SGBRG12P | V4L2_PIX_FMT_SGRBG12P | V4L2_PIX_FMT_SRGGB12P
  | V4L2_PIX_FMT_SBGGR12 | V4L2_PIX_FMT_SGBRG12 | V4L2_PIX_FMT_SGRBG12 | V4L2_PIX_FMT_SRGGB12
  | V4L2_PIX_FMT_SBGGR14P | V4L2_PIX_FMT_SGBRG14P | V4L2_PIX_FMT_SGRBG14P | V4L2_PIX_FMT_SRGGB14P
  | V4L2_PIX_FMT_GREY | V4L2_PIX_FMT_Y10P | V4L2_PIX_FMT_Y10 | V4L2_PIX_FMT_Y12
  | PIX_FMT_other nat

datatype media_bus_fmt =
    MEDIA_BUS_FMT_YUYV8_2X8 | MEDIA_BUS_FMT_UYVY8_2X8 | MEDIA_BUS_FMT_YVYU8_2X8
  | MEDIA_BUS_FMT_VYUY8_2X8
  | MEDIA_BUS_FMT_YUYV8_1X16 | MEDIA_BUS_FMT_UYVY8_1X16 | MEDIA_BUS_FMT_YVYU8_1X16
  | MEDIA_BUS_FMT_VYUY8_1X16
  | MEDIA_BUS_FMT_RGB565_2X8_LE | MEDIA_BUS_FMT_RGB565_2X8_BE
  | MEDIA_BUS_FMT_RGB555_2X8_PADHI_LE | MEDIA_BUS_FMT_RGB555_2X8_PADHI_BE
  | MEDIA_BUS_FMT_RGB888_1X24 | MEDIA_BUS_FMT_BGR888_1X24 | MEDIA_BUS_FMT_ARGB8888_1X32
  | MEDIA_BUS_FMT_SBGGR8_1X8 | MEDIA_BUS_FMT_SGBRG8_1X8 | MEDIA_BUS_FMT_SGRBG8_1X8
  | MEDIA_BUS_FMT_SRGGB8_1X8
  | MEDIA_BUS_FMT_SBGGR10_1X10 | MEDIA_BUS_FMT_SGBRG10_1X10 | MEDIA_BUS_FMT_SGRBG10_1X10
  | MEDIA_BUS_FMT_SRGGB10_1X10
  | MEDIA_BUS_FMT_SBGGR12_1X12 | MEDIA_BUS_FMT_SGBRG12_1X12 | MEDIA_BUS_FMT_SGRBG12_1X12
  | MEDIA_BUS_FMT_SRGGB12_1X12
  | MEDIA_BUS_FMT_SBGGR14_1X14 | MEDIA_BUS_FMT_SGBRG14_1X14 | MEDIA_BUS_FMT_SGRBG14_1X14
  | MEDIA_BUS_FMT_SRGGB14_1X14
  | MEDIA_BUS_FMT_Y8_1X8 | MEDIA_BUS_FMT_Y10_1X10 | MEDIA_BUS_FMT_Y12_1X12
  | MEDIA_BUS_FMT_other nat

text \<open>\<open>struct unicam_fmt\<close>.\<close>

record unicam_fmt =
  fourcc :: v4l2_pix_fmt
  repacked_fourcc :: v4l2_pix_fmt
  code :: media_bus_fmt
  depth :: u8
  csi_dt :: u8
  check_variants :: u8

text \<open>
  One row of the table, in the order fourcc, repacked fourcc, code, depth, CSI data type,
  check_variants; a field the C initialiser leaves out is 0.
\<close>

definition fmt_row ::
  "v4l2_pix_fmt \<Rightarrow> v4l2_pix_fmt \<Rightarrow> media_bus_fmt \<Rightarrow> u8 \<Rightarrow> u8 \<Rightarrow> u8 \<Rightarrow> unicam_fmt" where
  "fmt_row f r c d t v =
     \<lparr>fourcc = f, repacked_fourcc = r, code = c, depth = d, csi_dt = t, check_variants = v\<rparr>"

definition formats :: "unicam_fmt list" where
  "formats = [
    fmt_row V4L2_PIX_FMT_YUYV PIX_FMT_0 MEDIA_BUS_FMT_YUYV8_2X8 16 0x1e 1,
    fmt_row V4L2_PIX_FMT_UYVY PIX_FMT_0 MEDIA_BUS_FMT_UYVY8_2X8 16 0x1e 1,
    fmt_row V4L2_PIX_FMT_YVYU PIX_FMT_0 MEDIA_BUS_FMT_YVYU8_2X8 16 0x1e 1,
    fmt_row V4L2_PIX_FMT_VYUY PIX_FMT_0 MEDIA_BUS_FMT_VYUY8_2X8 16 0x1e 1,
    fmt_row V4L2_PIX_FMT_YUYV PIX_FMT_0 MEDIA_BUS_FMT_YUYV8_1X16 16 0x1e 0,
    fmt_row V4L2_PIX_FMT_UYVY PIX_FMT_0 MEDIA_BUS_FMT_UYVY8_1X16 16 0x1e 0,
    fmt_row V4L2_PIX_FMT_YVYU PIX_FMT_0 MEDIA_BUS_FMT_YVYU8_1X16 16 0x1e 0,
    fmt_row V4L2_PIX_FMT_VYUY PIX_FMT_0 MEDIA_BUS_FMT_VYUY8_1X16 16 0x1e 0,
    fmt_row V4L2_PIX_FMT_RGB565 PIX_FMT_0 MEDIA_BUS_FMT_RGB565_2X8_LE 16 0x22 0,
    fmt_row V4L2_PIX_FMT_RGB565X PIX_FMT_0 MEDIA_BUS_FMT_RGB565_2X8_BE 16 0x22 0,
    fmt_row V4L2_PIX_FMT_RGB555 PIX_FMT_0 MEDIA_BUS_FMT_RGB555_2X8_PADHI_LE 16 0x21 0,
    fmt_row V4L2_PIX_FMT_RGB555X PIX_FMT_0 MEDIA_BUS_FMT_RGB555_2X8_PADHI_BE 16 0x21 0,
    fmt_row V4L2_PIX_FMT_RGB24 PIX_FMT_0 MEDIA_BUS_FMT_RGB888_1X24 24 0x24 0,
    fmt_row V4L2_PIX_FMT_BGR24 PIX_FMT_0 MEDIA_BUS_FMT_BGR888_1X24 24 0x24 0,
    fmt_row V4L2_PIX_FMT_RGB32 PIX_FMT_0 MEDIA_BUS_FMT_ARGB8888_1X32 32 0x0 0,
    fmt_row V4L2_PIX_FMT_SBGGR8 PIX_FMT_0 MEDIA_BUS_FMT_SBGGR8_1X8 8 0x2a 0,
    fmt_row V4L2_PIX_FMT_SGBRG8 PIX_FMT_0 MEDIA_BUS_FMT_SGBRG8_1X8 8 0x2a 0,
    fmt_row V4L2_PIX_FMT_SGRBG8 PIX_FMT_0 MEDIA_BUS_FMT_SGRBG8_1X8 8 0x2a 0,
    fmt_row V4L2_PIX_FMT_SRGGB8 PIX_FMT_0 MEDIA_BUS_FMT_SRGGB8_1X8 8 0x2a 0,
    fmt_row V4L2_PIX_FMT_SBGGR10P V4L2_PIX_FMT_SBGGR10 MEDIA_BUS_FMT_SBGGR10_1X10 10 0x2b 0,
    fmt_row V4L2_PIX_FMT_SGBRG10P V4L2_PIX_FMT_SGBRG10 MEDIA_BUS_FMT_SGBRG10_1X10 10 0x2b 0,
    fmt_row V4L2_PIX_FMT_SGRBG10P V4L2_PIX_FMT_SGRBG10 MEDIA_BUS_FMT_SGRBG10_1X10 10 0x2b 0,
    fmt_row V4L2_PIX_FMT_SRGGB10P V4L2_PIX_FMT_SRGGB10 MEDIA_BUS_FMT_SRGGB10_1X10 10 0x2b 0,
    fmt_row V4L2_PIX_FMT_SBGGR12P V4L2_PIX_FMT_SBGGR12 MEDIA_BUS_FMT_SBGGR12_1X12 12 0x2c 0,
    fmt_row V4L2_PIX_FMT_SGBRG12P V4L2_PIX_FMT_SGBRG12 MEDIA_BUS_FMT_SGBRG12_1X12 12 0x2c 0,
    fmt_row V4L2_PIX_FMT_SGRBG12P V4L2_PIX_FMT_SGRBG12 MEDIA_BUS_FMT_SGRBG12_1X12 12 0x2c 0,
    fmt_row V4L2_PIX_FMT_SRGGB12P V4L2_PIX_FMT_SRGGB12 MEDIA_BUS_FMT_SRGGB12_1X12 12 0x2c 0,
    fmt_row V4L2_PIX_FMT_SBGGR14P PIX_FMT_0 MEDIA_BUS_FMT_SBGGR14_1X14 14 0x2d 0,
    fmt_row V4L2_PIX_FMT_SGBRG14P PIX_FMT_0 MEDIA_BUS_FMT_SGBRG14_1X14 14 0x2d 0,
    fmt_row V4L2_PIX_FMT_SGRBG14P PIX_FMT_0 MEDIA_BUS_FMT_SGRBG14_1X14 14 0x2d 0,
    fmt_row V4L2_PIX_FMT_SRGGB14P PIX_FMT_0 MEDIA_BUS_FMT_SRGGB14_1X14 14 0x2d 0,
    fmt_row V4L2_PIX_FMT_GREY PIX_FMT_0 MEDIA_BUS_FMT_Y8_1X8 8 0x2a 0,
    fmt_row V4L2_PIX_FMT_Y10P V4L2_PIX_FMT_Y10 MEDIA_BUS_FMT_Y10_1X10 10 0x2b 0,
    fmt_row PIX_FMT_0 V4L2_PIX_FMT_Y12 MEDIA_BUS_FMT_Y12_1X12 12 0x2c 0]"

subsection \<open>Layout: stride and image size\<close>

text \<open>The fields of \<open>struct v4l2_pix_format\<close> that the driver's layout code touches.\<close>

record v4l2_pix_format =
  width :: u32
  height :: u32
  pixelformat :: v4l2_pix_fmt
  bytesperline :: u32
  sizeimage :: u32

definition bytes_per_line :: "u32 \<Rightarrow> unicam_fmt \<Rightarrow> v4l2_pix_fmt \<Rightarrow> u32" where
  "bytes_per_line w fmt v4l2_fourcc =
     (if v4l2_fourcc = repacked_fourcc fmt
      then ALIGN (push_bit 1 w) BPL_ALIGNMENT
      else ALIGN (drop_bit 3 (w * ucast (depth fmt))) BPL_ALIGNMENT)"

text \<open>
  \<open>unicam_calc_format_size_bpl\<close>. Its first statement calls \<open>v4l_bound_align_image\<close>
  (v4l2-common.c, not among the sources) on the width and height with the driver's
  bounds; the parameter \<open>bound\<close> is that call, mapping the stored width and height to the
  bounded ones. The function returns 0 in every case, so the model returns the updated
  format.
\<close>

definition unicam_calc_format_size_bpl ::
  "(u32 \<Rightarrow> u32 \<Rightarrow> u32 \<times> u32) \<Rightarrow> unicam_fmt \<Rightarrow> v4l2_pix_format \<Rightarrow> v4l2_pix_format" where
  "unicam_calc_format_size_bpl bound fmt f =
     (let (w, h) = bound (width f) (height f);
          f = f\<lparr>width := w, height := h\<rparr>;
          min_bytesperline = bytes_per_line (width f) fmt (pixelformat f);
          f = (if bytesperline f > min_bytesperline \<and> bytesperline f \<le> MAX_BYTESPERLINE
               then f\<lparr>bytesperline := ALIGN (bytesperline f) BPL_ALIGNMENT\<rparr>
               else f\<lparr>bytesperline := min_bytesperline\<rparr>)
      in f\<lparr>sizeimage := ALIGN (height f) HEIGHT_ALIGNMENT * bytesperline f\<rparr>)"

text \<open>
  Modelled from the spec: \<open>v4l_bound_align_image\<close> as the driver calls it. Section 4.2:
  the layout computation "clamps width/height to declared min/max bounds (minimum 16x16,
  maximum derived from the largest representable stride at 4 bytes/pixel), rounds width
  to an even boundary".
\<close>

definition clamp_u32 :: "u32 \<Rightarrow> u32 \<Rightarrow> u32 \<Rightarrow> u32" where
  "clamp_u32 x lo hi = (if x < lo then lo else if hi < x then hi else x)"

definition bound_align_image :: "u32 \<Rightarrow> u32 \<Rightarrow> u32 \<times> u32" where
  "bound_align_image w h =
     (clamp_u32 w MIN_WIDTH MAX_WIDTH AND NOT 1, clamp_u32 h MIN_HEIGHT MAX_HEIGHT)"


subsection \<open>Format lookup against the sensor\<close>

text \<open>
  The sensor's \<open>enum_mbus_code\<close> pad operation, as \<open>v4l2_subdev_call\<close> returns it: for
  an index, the return code and the media bus code left in the query structure. The
  driver clears the structure before every call and passes no other state, so the
  answer is a function of the index.
\<close>

type_synonym enum_mbus_code = "u32 \<Rightarrow> int \<times> media_bus_fmt"

text \<open>\<open>find_format_by_code\<close>: the first row of the table with that media bus code.\<close>

definition find_format_by_code :: "media_bus_fmt \<Rightarrow> unicam_fmt option" where
  "find_format_by_code c = find (\<lambda>f. code f = c) formats"

text \<open>
  \<open>check_mbus_format\<close>: the loop \<open>for (i = 0; !ret && i < MAX_ENUM_MBUS_CODE; i++)\<close>,
  with \<open>ret\<close> and \<open>i\<close> as arguments; 1 is the early \<open>return 1\<close>, 0 the \<open>return 0\<close>
  after the loop.
\<close>

function check_mbus_format_loop :: "enum_mbus_code \<Rightarrow> unicam_fmt \<Rightarrow> int \<Rightarrow> nat \<Rightarrow> int" where
  "check_mbus_format_loop sensor format ret i =
     (if ret = 0 \<and> i < MAX_ENUM_MBUS_CODE
      then (case sensor (of_nat i) of
              (ret', c) \<Rightarrow>
                if ret' = 0 \<and> c = code format then 1
                else check_mbus_format_loop sensor format ret' (i + 1))
      else 0)"
  by pat_completeness auto
termination
  by (relation "measure (\<lambda>(sensor, format, ret, i). MAX_ENUM_MBUS_CODE - i)") auto

declare check_mbus_format_loop.simps [simp del]

definition check_mbus_format :: "enum_mbus_code \<Rightarrow> unicam_fmt \<Rightarrow> int" where
  "check_mbus_format sensor format = check_mbus_format_loop sensor format 0 0"

text \<open>
  \<open>find_format_by_pix\<close>: the loop over the table is the recursion of \<open>find_by_pix\<close> over
  the rows that remain; \<open>continue\<close> is the recursive call and \<open>return &formats[k]\<close> the
  row.
\<close>

fun find_by_pix :: "enum_mbus_code \<Rightarrow> v4l2_pix_fmt \<Rightarrow> unicam_fmt list \<Rightarrow> unicam_fmt option" where
  "find_by_pix sensor pix [] = None"
| "find_by_pix sensor pix (f # fs) =
     (if fourcc f = pix \<or> repacked_fourcc f = pix
      then (if check_variants f \<noteq> 0 \<and> check_mbus_format sensor f = 0
            then find_by_pix sensor pix fs
            else Some f)
      else find_by_pix sensor pix fs)"

definition find_format_by_pix :: "enum_mbus_code \<Rightarrow> v4l2_pix_fmt \<Rightarrow> unicam_fmt option" where
  "find_format_by_pix sensor pix = find_by_pix sensor pix formats"

text \<open>
  \<open>get_first_supported_format\<close>: the loop
  \<open>for (j = 0; ret != -EINVAL && ret != -ENOIOCTLCMD; ++j)\<close> has no bound on \<open>j\<close> and may
  run forever, so the result is an option: \<open>None\<close> is no return, \<open>Some None\<close> the
  \<open>return NULL\<close> after the loop, \<open>Some (Some f)\<close> the \<open>return fmt\<close> inside it. The
  counter is an \<open>int\<close> copied into the 32-bit index of the query; the kernel is built
  with wrapping signed arithmetic, so the index is a 32-bit word that wraps.
  \<open>ret\<close> is declared without an initialiser and the loop condition reads it before the
  body has assigned it: the argument \<open>ret\<close> of \<open>get_first_supported_format\<close> is that
  indeterminate first value.
\<close>

partial_function (option) get_first_supported_format_loop ::
  "enum_mbus_code \<Rightarrow> int \<Rightarrow> u32 \<Rightarrow> unicam_fmt option option" where
  "get_first_supported_format_loop sensor ret j =
     (if ret \<noteq> - EINVAL \<and> ret \<noteq> - ENOIOCTLCMD
      then (case sensor j of
              (ret', c) \<Rightarrow>
                if ret' < 0 then get_first_supported_format_loop sensor ret' (j + 1)
                else (case find_format_by_code c of
                        Some fmt \<Rightarrow> Some (Some fmt)
                      | None \<Rightarrow> get_first_supported_format_loop sensor ret' (j + 1)))
      else Some None)"

definition get_first_supported_format :: "enum_mbus_code \<Rightarrow> int \<Rightarrow> unicam_fmt option option" where
  "get_first_supported_format sensor ret = get_first_supported_format_loop sensor ret 0"


text \<open>
  The sensor enumerates a code when, asked for the indices 0, 1, ... below
  \<open>MAX_ENUM_MBUS_CODE\<close>, it answers that code with return 0 before any non-zero return.
\<close>

definition enumerates :: "enum_mbus_code \<Rightarrow> media_bus_fmt \<Rightarrow> bool" where
  "enumerates sensor c \<longleftrightarrow>
     (\<exists>k<MAX_ENUM_MBUS_CODE. sensor (of_nat k) = (0, c) \<and> (\<forall>j<k. fst (sensor (of_nat j)) = 0))"

text \<open>
  An index at which the loop of \<open>get_first_supported_format\<close> stops: the sensor answers
  one of the two errors of the loop condition, or a code that the table has.
\<close>

definition loop_exit_at :: "enum_mbus_code \<Rightarrow> u32 \<Rightarrow> bool" where
  "loop_exit_at sensor j \<longleftrightarrow>
     fst (sensor j) = - EINVAL \<or> fst (sensor j) = - ENOIOCTLCMD
     \<or> (0 \<le> fst (sensor j) \<and> find_format_by_code (snd (sensor j)) \<noteq> None)"

subsection \<open>Buffers, the queue, the two slots and the hardware\<close>

text \<open>
  A \<open>struct unicam_buffer\<close> is known by its number; a pointer to one is an option, with
  \<open>None\<close> for \<open>NULL\<close>. Of the buffer's contents the driver writes the field order, the
  sequence number and the timestamp, and reads the DMA address of plane 0.
\<close>

datatype vb2_buffer_state = VB2_BUF_STATE_QUEUED | VB2_BUF_STATE_DONE | VB2_BUF_STATE_ERROR

record vb2_v4l2_buffer =
  vb_field :: u32
  vb_sequence :: u32
  vb_timestamp :: u64
  plane_dma_addr :: u32

text \<open>
  One call of \<open>vb2_buffer_done\<close>: the buffer handed back, its state, and its contents
  at that moment.
\<close>

record completion =
  done_buf :: nat
  done_state :: vb2_buffer_state
  done_vb :: vb2_v4l2_buffer

text \<open>
  Register reads are inputs and register writes are outputs. Every action of the driver
  on its collaborators is appended to the trace \<open>hw\<close> of the device: a register write,
  or a call of the power, clock or sensor interfaces. \<open>unicam_start_rx\<close> and
  \<open>unicam_disable\<close> program the receiver through register fields whose masks are in
  vc4-regs-unicam.h; they touch no buffer, slot or queue, and each is one entry of the
  trace (the start with the DMA address it programs).
\<close>

datatype unicam_reg = UNICAM_STA | UNICAM_ISTA | UNICAM_ICTL | UNICAM_IBSA0 | UNICAM_IBEA0

datatype hw_call =
    Reg_write unicam_reg u32
  | Pm_runtime_get_sync | Pm_runtime_put_sync
  | G_mbus_config
  | Clk_set_rate | Clk_prepare_enable | Clk_disable_unprepare
  | Unicam_start_rx u32 | Unicam_disable
  | S_stream int

datatype v4l2_mbus_type = V4L2_MBUS_CSI2_DPHY | V4L2_MBUS_CCP2 | V4L2_MBUS_UNKNOWN

datatype irqreturn = IRQ_NONE | IRQ_HANDLED

text \<open>The fields of \<open>struct unicam_device\<close> that streaming uses.\<close>

record unicam_device =
  sequence :: u32
  cur_frm :: "nat option"
  next_frm :: "nat option"
  v_fmt :: v4l2_pix_format
  m_fmt_field :: u32
  bus_type :: v4l2_mbus_type
  max_data_lanes :: u32
  active_data_lanes :: u32
  dma_queue :: "nat list"
  streaming :: int
  bufs :: "nat \<Rightarrow> vb2_v4l2_buffer"
  done_log :: "completion list"
  hw :: "hw_call list"

text \<open>
  The bit masks of vc4-regs-unicam.h and v4l2-mediabus.h that streaming uses. The headers
  are not among the sources, so the masks are a parameter of every function that uses
  one.
\<close>

record hdr_consts =
  UNICAM_IS :: u32
  UNICAM_PI0 :: u32
  UNICAM_FSI :: u32
  UNICAM_FEI :: u32
  UNICAM_LCI :: u32
  UNICAM_FCM :: u32
  UNICAM_TFC :: u32
  V4L2_MBUS_CSI2_LANE_MASK :: u32

text \<open>
  Modelled from the spec: the masks themselves. Section 4.5 has the interrupt carry "a
  status bitmask with independent bits": frame start, frame end and line count are one
  bit each of the interrupt status, the interrupt and packet-compare flags one bit each of
  the status, the trigger-mode flags one bit each of the interrupt control; the lane
  count is a four-bit field of the sensor's bus flags.
\<close>

definition vc4_regs :: hdr_consts where
  "vc4_regs = \<lparr>UNICAM_IS = push_bit 14 1, UNICAM_PI0 = push_bit 15 1,
     UNICAM_FSI = push_bit 0 1, UNICAM_FEI = push_bit 1 1, UNICAM_LCI = push_bit 2 1,
     UNICAM_FCM = push_bit 3 1, UNICAM_TFC = push_bit 4 1,
     V4L2_MBUS_CSI2_LANE_MASK = push_bit 10 0xf\<rparr>"

text \<open>
  \<open>__ffs\<close>: the index of the lowest set bit. C leaves \<open>__ffs(0)\<close> undefined; the search
  below stops at 32.
\<close>

fun ffs_from :: "nat \<Rightarrow> nat \<Rightarrow> u32 \<Rightarrow> nat" where
  "ffs_from 0 i w = i"
| "ffs_from (Suc k) i w = (if bit w i then i else ffs_from k (Suc i) w)"

definition ffs :: "u32 \<Rightarrow> nat" where
  "ffs w = ffs_from 32 0 w"

definition set_field :: "u32 \<Rightarrow> u32 \<Rightarrow> u32 \<Rightarrow> u32" where
  "set_field val fld msk = (val AND NOT msk) OR (push_bit (ffs msk) fld AND msk)"

definition reg_write :: "unicam_device \<Rightarrow> unicam_reg \<Rightarrow> u32 \<Rightarrow> unicam_device" where
  "reg_write dev offset val = dev\<lparr>hw := hw dev @ [Reg_write offset val]\<rparr>"

text \<open>\<open>reg_write_field\<close>; \<open>rd\<close> is the value its \<open>reg_read\<close> returns.\<close>

definition reg_write_field ::
  "unicam_device \<Rightarrow> u32 \<Rightarrow> unicam_reg \<Rightarrow> u32 \<Rightarrow> u32 \<Rightarrow> unicam_device" where
  "reg_write_field dev rd offset fld msk = reg_write dev offset (set_field rd fld msk)"

definition hw_call :: "unicam_device \<Rightarrow> hw_call \<Rightarrow> unicam_device" where
  "hw_call dev c = dev\<lparr>hw := hw dev @ [c]\<rparr>"

text \<open>
  Modelled from the spec: \<open>vb2_buffer_done\<close> (videobuf2-core.c) is not among the sources.
  Section 6: the consumer "receives on_complete(Buffer, sequence, timestamp, status)".
\<close>

definition vb2_buffer_done :: "unicam_device \<Rightarrow> nat \<Rightarrow> vb2_buffer_state \<Rightarrow> unicam_device" where
  "vb2_buffer_done dev b st =
     dev\<lparr>done_log := done_log dev @ [\<lparr>done_buf = b, done_state = st, done_vb = bufs dev b\<rparr>]\<rparr>"

text \<open>
  \<open>vb2_buffer_done(&p->vb.vb2_buf, st)\<close> through a slot \<open>p\<close>: with \<open>p\<close> \<open>NULL\<close> the
  callee dereferences an invalid pointer, which is the fault \<open>None\<close>.
\<close>

definition buffer_done_ptr ::
  "unicam_device \<Rightarrow> nat option \<Rightarrow> vb2_buffer_state \<Rightarrow> unicam_device option" where
  "buffer_done_ptr dev p st = (case p of None \<Rightarrow> None | Some b \<Rightarrow> Some (vb2_buffer_done dev b st))"

definition unicam_wr_dma_addr :: "unicam_device \<Rightarrow> u32 \<Rightarrow> unicam_device" where
  "unicam_wr_dma_addr dev dmaaddr =
     reg_write (reg_write dev UNICAM_IBSA0 dmaaddr)
       UNICAM_IBEA0 (dmaaddr + sizeimage (v_fmt dev))"

text \<open>
  \<open>unicam_schedule_next_buffer\<close>. On an empty list \<open>list_entry(dma_q->active.next)\<close> is
  the list head taken for a buffer, which the function goes on to dereference: the
  fault \<open>None\<close>.
\<close>

definition unicam_schedule_next_buffer :: "unicam_device \<Rightarrow> unicam_device option" where
  "unicam_schedule_next_buffer dev =
     (case dma_queue dev of
        [] \<Rightarrow> None
      | buf # rest \<Rightarrow>
          (let dev = dev\<lparr>next_frm := Some buf, dma_queue := rest\<rparr>;
               addr = plane_dma_addr (bufs dev buf)
           in Some (unicam_wr_dma_addr dev addr)))"

definition unicam_process_buffer_complete :: "unicam_device \<Rightarrow> unicam_device option" where
  "unicam_process_buffer_complete dev =
     (case cur_frm dev of
        None \<Rightarrow> None
      | Some c \<Rightarrow>
          (let dev = dev\<lparr>bufs := (bufs dev)(c := (bufs dev c)\<lparr>vb_field := m_fmt_field dev\<rparr>)\<rparr>;
               dev = dev\<lparr>bufs := (bufs dev)(c := (bufs dev c)\<lparr>vb_sequence := sequence dev\<rparr>),
                         sequence := sequence dev + 1\<rparr>;
               dev = vb2_buffer_done dev c VB2_BUF_STATE_DONE
           in Some (dev\<lparr>cur_frm := next_frm dev\<rparr>)))"

text \<open>
  What one invocation of the interrupt handler reads: the status, interrupt status and
  interrupt control registers (the last once for the test of the trigger mode and once in
  each \<open>reg_write_field\<close>), and the clock.
\<close>

record isr_reads =
  rd_STA :: u32
  rd_ISTA :: u32
  rd_ICTL :: u32
  rd_ICTL_tfc :: u32
  rd_ICTL_fcm :: u32
  ktime_get_ns :: u64

text \<open>
  \<open>unicam_isr\<close>. The test \<open>sta && (UNICAM_IS | UNICAM_PI0)\<close> is a logical and, as the
  source has it.
\<close>

definition unicam_isr ::
  "hdr_consts \<Rightarrow> isr_reads \<Rightarrow> unicam_device \<Rightarrow> (irqreturn \<times> unicam_device) option" where
  "unicam_isr h rd unicam =
     (if streaming unicam = 0 then Some (IRQ_HANDLED, unicam)
      else
        let sta = rd_STA rd;
            unicam = reg_write unicam UNICAM_STA sta;
            ista = rd_ISTA rd;
            unicam = reg_write unicam UNICAM_ISTA ista
        in
          if \<not> (sta \<noteq> 0 \<and> (UNICAM_IS h OR UNICAM_PI0 h) \<noteq> 0) then Some (IRQ_HANDLED, unicam)
          else do {
            let unicam =
              (if ista AND UNICAM_FSI h \<noteq> 0
               then (case cur_frm unicam of
                       Some c \<Rightarrow>
                         unicam\<lparr>bufs := (bufs unicam)
                           (c := (bufs unicam c)\<lparr>vb_timestamp := ktime_get_ns rd\<rparr>)\<rparr>
                     | None \<Rightarrow> unicam)
               else unicam);
            unicam \<leftarrow>
              (if (ista AND UNICAM_FEI h \<noteq> 0 \<or> sta AND UNICAM_PI0 h \<noteq> 0)
                  \<and> cur_frm unicam \<noteq> None \<and> cur_frm unicam \<noteq> next_frm unicam
               then unicam_process_buffer_complete unicam
               else Some unicam);
            unicam \<leftarrow>
              (if ista AND (UNICAM_FSI h OR UNICAM_LCI h) \<noteq> 0
                  \<and> dma_queue unicam \<noteq> [] \<and> cur_frm unicam = next_frm unicam
               then unicam_schedule_next_buffer unicam
               else Some unicam);
            let unicam =
              (if rd_ICTL rd AND UNICAM_FCM h \<noteq> 0
               then reg_write_field
                      (reg_write_field unicam (rd_ICTL_tfc rd) UNICAM_ICTL 1 (UNICAM_TFC h))
                      (rd_ICTL_fcm rd) UNICAM_ICTL 0 (UNICAM_FCM h)
               else unicam);
            Some (IRQ_HANDLED, unicam)
          })"

text \<open>\<open>unicam_buffer_queue\<close>: \<open>list_add_tail\<close>.\<close>

definition unicam_buffer_queue :: "unicam_device \<Rightarrow> nat \<Rightarrow> unicam_device" where
  "unicam_buffer_queue dev buf = dev\<lparr>dma_queue := dma_queue dev @ [buf]\<rparr>"


subsection \<open>Stream start and stop\<close>

text \<open>
  What the collaborators of \<open>unicam_start_streaming\<close> answer: the return codes of
  \<open>pm_runtime_get_sync\<close>, \<open>clk_set_rate\<close>, \<open>clk_prepare_enable\<close> and of the sensor's
  \<open>s_stream\<close> (by its argument), whether the sensor has the \<open>g_mbus_config\<close> operation,
  and that operation's return code and bus flags. The last field is what the machine
  makes of a start on an empty list, where the function reads through the list head
  taken for a buffer: C gives that no meaning, and whether it faults (\<open>None\<close>) or
  returns, and with what code and device, depends on the memory read.
\<close>

record start_calls =
  pm_runtime_get_sync :: int
  has_g_mbus_config :: bool
  g_mbus_config :: "int \<times> u32"
  clk_set_rate :: int
  clk_prepare_enable :: int
  s_stream :: "int \<Rightarrow> int"
  empty_list_outcome :: "(int \<times> unicam_device) option"

definition unicam_start_rx :: "unicam_device \<Rightarrow> u32 \<Rightarrow> unicam_device" where
  "unicam_start_rx dev addr = hw_call dev (Unicam_start_rx addr)"

definition unicam_disable :: "unicam_device \<Rightarrow> unicam_device" where
  "unicam_disable dev = hw_call dev Unicam_disable"

definition unicam_runtime_put :: "unicam_device \<Rightarrow> unicam_device" where
  "unicam_runtime_put dev = hw_call dev Pm_runtime_put_sync"

text \<open>
  The loop \<open>list_for_each_entry_safe(buf, tmp, &dma_q->active, list)\<close> of both the error
  path of the start and of the stop: every queued buffer is unlinked and handed back.
\<close>

definition release_queue :: "unicam_device \<Rightarrow> vb2_buffer_state \<Rightarrow> unicam_device" where
  "release_queue dev st =
     (fold (\<lambda>buf dev. vb2_buffer_done dev buf st) (dma_queue dev) dev)\<lparr>dma_queue := []\<rparr>"

text \<open>The labels \<open>err_release_buffers\<close>, \<open>err_pm_put\<close> and \<open>err_disable_unicam\<close>.\<close>

definition err_release_buffers :: "unicam_device \<Rightarrow> int \<Rightarrow> (int \<times> unicam_device) option" where
  "err_release_buffers dev ret = do {
     let dev = release_queue dev VB2_BUF_STATE_QUEUED;
     dev \<leftarrow> (if cur_frm dev \<noteq> next_frm dev
             then buffer_done_ptr dev (next_frm dev) VB2_BUF_STATE_QUEUED
             else Some dev);
     dev \<leftarrow> buffer_done_ptr dev (cur_frm dev) VB2_BUF_STATE_QUEUED;
     Some (ret, dev\<lparr>next_frm := None, cur_frm := None\<rparr>)
   }"

definition err_pm_put :: "unicam_device \<Rightarrow> int \<Rightarrow> (int \<times> unicam_device) option" where
  "err_pm_put dev ret = err_release_buffers (unicam_runtime_put dev) ret"

definition err_disable_unicam :: "unicam_device \<Rightarrow> int \<Rightarrow> (int \<times> unicam_device) option" where
  "err_disable_unicam dev ret =
     err_pm_put (hw_call (unicam_disable dev) Clk_disable_unprepare) ret"

text \<open>
  \<open>unicam_start_streaming\<close>: the return code and the device. The function takes
  \<open>list_entry(dma_q->active.next)\<close> without a test of the list. On an empty list that
  is the list head taken for a buffer, which the function unlinks and reads through
  (lines 1344 to 1350): undefined behaviour, of which the model fixes nothing and takes
  the outcome from the environment. The driver leaves the precondition to videobuf2
  (\<open>q->min_buffers_needed = 2\<close>), which is not among the sources.
\<close>

definition unicam_start_streaming ::
  "hdr_consts \<Rightarrow> start_calls \<Rightarrow> unicam_device \<Rightarrow> (int \<times> unicam_device) option" where
  "unicam_start_streaming h env dev =
     (case dma_queue dev of
        [] \<Rightarrow> empty_list_outcome env
      | buf # rest \<Rightarrow>
          let dev = dev\<lparr>cur_frm := Some buf, next_frm := Some buf, dma_queue := rest\<rparr>;
              addr = plane_dma_addr (bufs dev buf);
              dev = dev\<lparr>sequence := 0\<rparr>;
              dev = hw_call dev Pm_runtime_get_sync
          in
            if pm_runtime_get_sync env < 0 then err_release_buffers dev (pm_runtime_get_sync env)
            else
              let dev = dev\<lparr>active_data_lanes := max_data_lanes dev\<rparr>;
                  query = (bus_type dev = V4L2_MBUS_CSI2_DPHY \<and> has_g_mbus_config env);
                  dev = (if query then hw_call dev G_mbus_config else dev)
              in
                if query \<and> fst (g_mbus_config env) < 0
                then err_pm_put dev (fst (g_mbus_config env))
                else
                  let lanes = drop_bit (ffs (V4L2_MBUS_CSI2_LANE_MASK h))
                                (snd (g_mbus_config env) AND V4L2_MBUS_CSI2_LANE_MASK h);
                      dev = (if query
                             then dev\<lparr>active_data_lanes :=
                                        (if lanes = 0 then max_data_lanes dev else lanes)\<rparr>
                             else dev)
                  in
                    if active_data_lanes dev > max_data_lanes dev then err_pm_put dev (- EINVAL)
                    else
                      let dev = hw_call dev Clk_set_rate in
                        if clk_set_rate env \<noteq> 0 then err_pm_put dev (clk_set_rate env)
                        else
                          let dev = hw_call dev Clk_prepare_enable in
                            if clk_prepare_enable env \<noteq> 0
                            then err_pm_put dev (clk_prepare_enable env)
                            else
                              let dev = dev\<lparr>streaming := 1\<rparr>;
                                  dev = unicam_start_rx dev addr;
                                  dev = hw_call dev (S_stream 1)
                              in
                                if s_stream env 1 < 0
                                then err_disable_unicam dev (s_stream env 1)
                                else Some (0, dev))"

text \<open>
  \<open>unicam_stop_streaming\<close>. A failure of the sensor's \<open>s_stream(0)\<close> is only logged.
\<close>

definition unicam_stop_streaming :: "unicam_device \<Rightarrow> unicam_device option" where
  "unicam_stop_streaming dev = do {
     let dev = hw_call dev (S_stream 0);
     let dev = unicam_disable dev;
     let dev = release_queue dev VB2_BUF_STATE_ERROR;
     dev \<leftarrow> (if cur_frm dev = next_frm dev
             then buffer_done_ptr dev (cur_frm dev) VB2_BUF_STATE_ERROR
             else do {
               dev \<leftarrow> buffer_done_ptr dev (cur_frm dev) VB2_BUF_STATE_ERROR;
               buffer_done_ptr dev (next_frm dev) VB2_BUF_STATE_ERROR
             });
     let dev = dev\<lparr>cur_frm := None, next_frm := None\<rparr>;
     let dev = hw_call dev Clk_disable_unprepare;
     Some (unicam_runtime_put dev)
   }"

subsection \<open>Runs of the scheduler\<close>

text \<open>
  While the stream is active two things happen to the device: the interrupt fires, and
  the consumer submits a buffer. A run is a list of such events, applied in order.
\<close>

datatype event = Irq isr_reads | Submit nat

definition step :: "hdr_consts \<Rightarrow> event \<Rightarrow> unicam_device \<Rightarrow> unicam_device option" where
  "step h e dev =
     (case e of
        Irq rd \<Rightarrow> map_option snd (unicam_isr h rd dev)
      | Submit b \<Rightarrow> Some (unicam_buffer_queue dev b))"

fun run :: "hdr_consts \<Rightarrow> event list \<Rightarrow> unicam_device \<Rightarrow> unicam_device option" where
  "run h [] dev = Some dev"
| "run h (e # es) dev = (case step h e dev of None \<Rightarrow> None | Some dev' \<Rightarrow> run h es dev')"

text \<open>
  A frame is dropped when the handler of an active stream gets past its test of the
  status word, sees the end of a frame (the frame-end interrupt or the packet-compare
  flag) and hands no buffer back.
\<close>

definition frame_end :: "hdr_consts \<Rightarrow> isr_reads \<Rightarrow> bool" where
  "frame_end h rd \<longleftrightarrow> rd_ISTA rd AND UNICAM_FEI h \<noteq> 0 \<or> rd_STA rd AND UNICAM_PI0 h \<noteq> 0"

definition drops_frame :: "hdr_consts \<Rightarrow> event \<Rightarrow> unicam_device \<Rightarrow> bool" where
  "drops_frame h e dev =
     (case e of
        Irq rd \<Rightarrow>
          streaming dev \<noteq> 0 \<and> rd_STA rd \<noteq> 0 \<and> UNICAM_IS h OR UNICAM_PI0 h \<noteq> 0
          \<and> frame_end h rd \<and>
          (case unicam_isr h rd dev of
             Some (r, dev') \<Rightarrow> length (done_log dev') = length (done_log dev)
           | None \<Rightarrow> False)
      | Submit b \<Rightarrow> False)"

fun dropped_frames :: "hdr_consts \<Rightarrow> event list \<Rightarrow> unicam_device \<Rightarrow> nat" where
  "dropped_frames h [] dev = 0"
| "dropped_frames h (e # es) dev =
     (case step h e dev of
        None \<Rightarrow> 0
      | Some dev' \<Rightarrow> (if drops_frame h e dev then 1 else 0) + dropped_frames h es dev')"


text \<open>The sequence numbers of the buffers handed back, oldest first.\<close>

definition done_sequences :: "unicam_device \<Rightarrow> u32 list" where
  "done_sequences dev = map (\<lambda>x. vb_sequence (done_vb x)) (done_log dev)"

subsection \<open>Example inputs\<close>

text \<open>The first row of the table, and a 16-line image in its pixel format.\<close>

definition ex_yuyv :: unicam_fmt where
  "ex_yuyv = fmt_row V4L2_PIX_FMT_YUYV PIX_FMT_0 MEDIA_BUS_FMT_YUYV8_2X8 16 0x1e 1"

definition ex_pix :: "u32 \<Rightarrow> u32 \<Rightarrow> v4l2_pix_format" where
  "ex_pix w stride =
     \<lparr>width = w, height = 16, pixelformat = V4L2_PIX_FMT_YUYV, bytesperline = stride,
      sizeimage = 0\<rparr>"



definition ex_sensor_1x16 :: enum_mbus_code where
  "ex_sensor_1x16 j =
     (if j = 0 then (0, MEDIA_BUS_FMT_YUYV8_1X16) else (- EINVAL, MEDIA_BUS_FMT_other 0))"

definition ex_sensor_codes :: enum_mbus_code where
  "ex_sensor_codes j = (0, MEDIA_BUS_FMT_YUYV8_2X8)"

definition ex_sensor_late :: enum_mbus_code where
  "ex_sensor_late j =
     (if j = 200 then (0, MEDIA_BUS_FMT_YUYV8_2X8) else (0, MEDIA_BUS_FMT_other 0))"

text \<open>
  A device with given slots and queue: streaming when the current slot is set, an image
  of 512 bytes, nothing handed back yet, and buffer \<open>b\<close> at DMA address \<open>4096 * (b + 1)\<close>. Interrupts that read the
  interrupt flag of the status register and one bit of the interrupt status: the end and
  the start of a frame. A run that ends a frame three times, with a submission and a frame
  start before the last. Collaborators of the start that all succeed.
\<close>

definition ex_bufs :: "nat \<Rightarrow> vb2_v4l2_buffer" where
  "ex_bufs b = \<lparr>vb_field = 0, vb_sequence = 0, vb_timestamp = 0,
     plane_dma_addr = 4096 * (of_nat b + 1)\<rparr>"

definition ex_dev :: "nat option \<Rightarrow> nat option \<Rightarrow> nat list \<Rightarrow> unicam_device" where
  "ex_dev cur nxt q =
     \<lparr>sequence = 0, cur_frm = cur, next_frm = nxt,
      v_fmt = \<lparr>width = 16, height = 16, pixelformat = V4L2_PIX_FMT_YUYV, bytesperline = 32,
               sizeimage = 512\<rparr>,
      m_fmt_field = 1, bus_type = V4L2_MBUS_CCP2, max_data_lanes = 2, active_data_lanes = 2,
      dma_queue = q, streaming = (if cur = None then 0 else 1), bufs = ex_bufs,
      done_log = [], hw = []\<rparr>"

definition ex_irq :: "u32 \<Rightarrow> isr_reads" where
  "ex_irq ista = \<lparr>rd_STA = UNICAM_IS vc4_regs, rd_ISTA = ista, rd_ICTL = 0, rd_ICTL_tfc = 0,
     rd_ICTL_fcm = 0, ktime_get_ns = 0\<rparr>"

definition ex_frame_end :: isr_reads where
  "ex_frame_end = ex_irq (UNICAM_FEI vc4_regs)"

definition ex_frame_start :: isr_reads where
  "ex_frame_start = ex_irq (UNICAM_FSI vc4_regs)"

definition ex_events :: "event list" where
  "ex_events = [Irq ex_frame_end, Irq ex_frame_end, Submit 2, Irq ex_frame_start, Irq ex_frame_end]"

definition ex_env :: start_calls where
  "ex_env = \<lparr>pm_runtime_get_sync = 0, has_g_mbus_config = False, g_mbus_config = (0, 0),
     clk_set_rate = 0, clk_prepare_enable = 0, s_stream = (\<lambda>enable. 0),
     empty_list_outcome = None\<rparr>"

text \<open>
  The bytes of a line of \<open>w\<close> pixels as the driver counts them, over the naturals: two
  bytes a pixel when the pixel format is the row's repacked one, and the bits of the line
  over 8, rounded down, otherwise. And the next multiple of 16.
\<close>

definition line_bytes :: "unicam_fmt \<Rightarrow> v4l2_pix_fmt \<Rightarrow> nat \<Rightarrow> nat" where
  "line_bytes fmt pix w = (if pix = repacked_fourcc fmt then 2 * w else w * unat (depth fmt) div 8)"

definition round_up_16 :: "nat \<Rightarrow> nat" where
  "round_up_16 n = (n + 15) div 16 * 16"

text \<open>
  The first row of the table that has a repacked pixel format, and a 640 by 480 image in
  that repacked format.
\<close>

definition ex_sbggr10 :: unicam_fmt where
  "ex_sbggr10 =
     fmt_row V4L2_PIX_FMT_SBGGR10P V4L2_PIX_FMT_SBGGR10 MEDIA_BUS_FMT_SBGGR10_1X10 10 0x2b 0"

definition ex_raw10 :: "u32 \<Rightarrow> v4l2_pix_format" where
  "ex_raw10 stride =
     \<lparr>width = 640, height = 480, pixelformat = V4L2_PIX_FMT_SBGGR10, bytesperline = stride,
      sizeimage = 0\<rparr>"

section \<open>Properties\<close>

subsection \<open>Layout\<close>

lemma and_not_15: "(y::u32) AND NOT 15 = push_bit 4 (drop_bit 4 y)"
proof -
  have m: "(15::u32) = mask 4" by (simp add: mask_eq_exp_minus_1)
  show ?thesis unfolding m
    by (rule bit_eqI) (auto simp add: bit_simps)
qed

lemma unat_and_not_15: "unat ((y::u32) AND NOT 15) = (unat y div 16) * 16"
proof -
  have "unat y div 16 * 16 \<le> unat y" by simp
  also have "\<dots> < 2 ^ 32" using unsigned_less [of y, where 'a = nat] by simp
  finally have lt: "unat y div 16 * 16 < 2 ^ 32" .
  have "unat (drop_bit 4 y) = unat y div 16"
    by (simp add: drop_bit_eq_div unat_div)
  then have "unat (push_bit 4 (drop_bit 4 y)) = (unat y div 16 * 16) mod 2 ^ 32"
    by (simp add: push_bit_eq_mult unat_word_ariths)
  then show ?thesis using lt by (simp only: and_not_15 mod_less)
qed

lemma unat_ALIGN_16:
  assumes "unat (x::u32) \<le> 2 ^ 32 - 16"
  shows "unat (ALIGN x 16) = ((unat x + 15) div 16) * 16"
proof -
  have "unat (x + 15) = unat x + 15"
    using assms by (simp add: unat_word_ariths)
  moreover have "ALIGN x 16 = (x + 15) AND NOT 15"
    by (simp add: ALIGN_def)
  ultimately show ?thesis
    by (simp only: unat_and_not_15)
qed

lemma unat_MAX_BYTESPERLINE: "unat MAX_BYTESPERLINE = 65520"
  by (simp add: MAX_BYTESPERLINE_def BPL_ALIGNMENT_def)

lemma unat_MAX_WIDTH: "unat MAX_WIDTH = 16380"
  by (simp add: MAX_WIDTH_def MAX_BYTESPERLINE_def BPL_ALIGNMENT_def)

lemma formats_depth: "fmt \<in> set formats \<Longrightarrow> unat (depth fmt) \<le> 32"
  by (auto simp add: formats_def fmt_row_def)

lemma unat_bytes_per_line:
  assumes w: "unat w \<le> 16380" and d: "unat (depth fmt) \<le> 32"
  shows "unat (bytes_per_line w fmt p) =
     (if p = repacked_fourcc fmt then (2 * unat w + 15) div 16 * 16
      else (unat w * unat (depth fmt) div 8 + 15) div 16 * 16)"
proof (cases "p = repacked_fourcc fmt")
  case True
  have "unat (push_bit 1 w) = 2 * unat w"
    using w by (simp add: push_bit_eq_mult unat_word_ariths)
  then show ?thesis
    using True w by (simp add: bytes_per_line_def BPL_ALIGNMENT_def unat_ALIGN_16)
next
  case False
  have u: "unat (ucast (depth fmt) :: u32) = unat (depth fmt)"
    by (simp add: unsigned_ucast_eq take_bit_eq_mod) (use unsigned_less [of "depth fmt", where ?'a = nat] in simp)
  have "unat w * unat (depth fmt) \<le> 16380 * 32"
    using w d by (rule mult_le_mono)
  then have m: "unat (w * ucast (depth fmt)) = unat w * unat (depth fmt)"
    by (simp add: unat_word_ariths u)
  have "unat (drop_bit 3 (w * ucast (depth fmt))) = unat w * unat (depth fmt) div 8"
    by (simp add: drop_bit_eq_div unat_div m)
  moreover have "unat w * unat (depth fmt) div 8 \<le> 65520"
    using \<open>unat w * unat (depth fmt) \<le> 16380 * 32\<close> by simp
  ultimately show ?thesis
    using False by (simp add: bytes_per_line_def BPL_ALIGNMENT_def unat_ALIGN_16)
qed


lemma calc_bytesperline:
  "bytesperline (unicam_calc_format_size_bpl bound fmt f) =
     (if bytes_per_line (fst (bound (width f) (height f))) fmt (pixelformat f) < bytesperline f
         \<and> bytesperline f \<le> MAX_BYTESPERLINE
      then ALIGN (bytesperline f) BPL_ALIGNMENT
      else bytes_per_line (fst (bound (width f) (height f))) fmt (pixelformat f))"
  by (cases "bound (width f) (height f)") (simp add: unicam_calc_format_size_bpl_def Let_def)

lemma calc_width:
  "width (unicam_calc_format_size_bpl bound fmt f) = fst (bound (width f) (height f))"
  by (cases "bound (width f) (height f)") (simp add: unicam_calc_format_size_bpl_def Let_def)

lemma round_up_16_ge: "(n::nat) \<le> (n + 15) div 16 * 16"
  by presburger

lemma round_up_16_eq: "((n::nat) + 15) div 16 * 16 = n \<longleftrightarrow> 16 dvd n"
  by presburger

text \<open>
  C8, as the code has it. The stride that \<open>unicam_calc_format_size_bpl\<close> stores is the
  requested stride rounded up to the next multiple of 16 when the request is above the
  computed minimum and at most \<open>MAX_BYTESPERLINE\<close> (the upper bound is included), and
  the computed minimum \<open>bytes_per_line\<close> of the bounded width otherwise. So the stored
  stride is the request itself exactly when the request is in that range and a multiple
  of 16, or is the minimum; an in-range request that is not a multiple of 16 is rounded
  up, not replaced by the minimum.
\<close>

theorem stride_selection_rule:
  "unat (bytesperline (unicam_calc_format_size_bpl bound fmt f)) =
     (if bytes_per_line (fst (bound (width f) (height f))) fmt (pixelformat f) < bytesperline f
         \<and> bytesperline f \<le> MAX_BYTESPERLINE
      then (unat (bytesperline f) + 15) div 16 * 16
      else unat (bytes_per_line (fst (bound (width f) (height f))) fmt (pixelformat f)))
   \<and> (bytesperline (unicam_calc_format_size_bpl bound fmt f) = bytesperline f) =
     (bytes_per_line (fst (bound (width f) (height f))) fmt (pixelformat f) < bytesperline f
         \<and> bytesperline f \<le> MAX_BYTESPERLINE \<and> 16 dvd unat (bytesperline f)
      \<or> bytesperline f = bytes_per_line (fst (bound (width f) (height f))) fmt (pixelformat f))"
proof (cases "bytes_per_line (fst (bound (width f) (height f))) fmt (pixelformat f) < bytesperline f
         \<and> bytesperline f \<le> MAX_BYTESPERLINE")
  case True
  then have "unat (bytesperline f) \<le> 65520"
    by (simp add: word_le_nat_alt unat_MAX_BYTESPERLINE)
  then have a: "unat (ALIGN (bytesperline f) 16) = (unat (bytesperline f) + 15) div 16 * 16"
    by (simp add: unat_ALIGN_16)
  have "(ALIGN (bytesperline f) 16 = bytesperline f) = (16 dvd unat (bytesperline f))"
    using a round_up_16_eq [of "unat (bytesperline f)"] by (metis word_unat_eq_iff)
  then show ?thesis
    using True a by (auto simp add: calc_bytesperline BPL_ALIGNMENT_def)
next
  case False
  then show ?thesis
    by (auto simp add: calc_bytesperline)
qed

lemma calc_fields:
  "height (unicam_calc_format_size_bpl bound fmt f) = snd (bound (width f) (height f))"
  "pixelformat (unicam_calc_format_size_bpl bound fmt f) = pixelformat f"
  "sizeimage (unicam_calc_format_size_bpl bound fmt f) =
     ALIGN (snd (bound (width f) (height f))) HEIGHT_ALIGNMENT
       * bytesperline (unicam_calc_format_size_bpl bound fmt f)"
  by (cases "bound (width f) (height f)"; simp add: unicam_calc_format_size_bpl_def Let_def)+

lemma formats_depth_even: "fmt \<in> set formats \<Longrightarrow> even (unat (depth fmt))"
  by (auto simp add: formats_def fmt_row_def)

lemma round_up_16_le: "n \<le> 65520 \<Longrightarrow> (n + 15) div 16 * 16 \<le> (65520::nat)"
  by presburger

lemma line_bytes_le:
  assumes "w \<le> 16380" and "unat (depth fmt) \<le> 32"
  shows "line_bytes fmt pix w \<le> 65520"
proof (cases "pix = repacked_fourcc fmt")
  case True
  then show ?thesis using assms by (simp add: line_bytes_def)
next
  case False
  have "w * unat (depth fmt) \<le> 16380 * 32" using assms by (rule mult_le_mono)
  then show ?thesis using False by (simp add: line_bytes_def)
qed

lemma line_bits_fit:
  assumes "4 dvd w" and "even (unat (depth fmt))"
  shows "w * (if pix = repacked_fourcc fmt then 16 else unat (depth fmt))
     \<le> 8 * line_bytes fmt pix w"
proof (cases "pix = repacked_fourcc fmt")
  case True
  then show ?thesis by (simp add: line_bytes_def)
next
  case False
  have "4 * 2 dvd w * unat (depth fmt)"
    using assms by (intro mult_dvd_mono) auto
  then have "8 * (w * unat (depth fmt) div 8) = w * unat (depth fmt)"
    by simp
  then show ?thesis using False by (simp add: line_bytes_def)
qed

text \<open>
  C9, as the code has it. For every row of the format table, every requested stride and
  every width that \<open>v4l_bound_align_image\<close> leaves at most \<open>MAX_WIDTH\<close>,
  \<open>unicam_calc_format_size_bpl\<close> stores that width and height, keeps the pixel format,
  and stores as stride the request rounded up to 16 when the request is above the rounded
  line and at most \<open>MAX_BYTESPERLINE\<close>, and the line rounded up to 16 otherwise. So the
  stride is a multiple of \<open>BPL_ALIGNMENT\<close> = 16, at most \<open>MAX_BYTESPERLINE\<close>, and at
  least the line as the driver counts it: the bits of the line over 8, rounded down, for
  the packed pixel format, and two bytes a pixel, whatever the depth, for the repacked
  one (not the packed line doubled). For a width that is a multiple of 4 every bit of the
  line fits. All bounds are over the naturals: nothing wraps.
\<close>

theorem layout_alignment_postcondition:
  assumes fmt: "fmt \<in> set formats"
    and w: "unat (fst (bound (width f) (height f))) \<le> unat MAX_WIDTH"
  shows "width (unicam_calc_format_size_bpl bound fmt f) = fst (bound (width f) (height f))
    \<and> height (unicam_calc_format_size_bpl bound fmt f) = snd (bound (width f) (height f))
    \<and> pixelformat (unicam_calc_format_size_bpl bound fmt f) = pixelformat f
    \<and> sizeimage (unicam_calc_format_size_bpl bound fmt f) =
        ALIGN (snd (bound (width f) (height f))) HEIGHT_ALIGNMENT
          * bytesperline (unicam_calc_format_size_bpl bound fmt f)
    \<and> unat (bytesperline (unicam_calc_format_size_bpl bound fmt f)) =
        (if round_up_16 (line_bytes fmt (pixelformat f) (unat (fst (bound (width f) (height f)))))
              < unat (bytesperline f)
            \<and> unat (bytesperline f) \<le> unat MAX_BYTESPERLINE
         then round_up_16 (unat (bytesperline f))
         else round_up_16 (line_bytes fmt (pixelformat f) (unat (fst (bound (width f) (height f))))))
    \<and> unat BPL_ALIGNMENT dvd unat (bytesperline (unicam_calc_format_size_bpl bound fmt f))
    \<and> line_bytes fmt (pixelformat f) (unat (fst (bound (width f) (height f))))
        \<le> unat (bytesperline (unicam_calc_format_size_bpl bound fmt f))
    \<and> unat (bytesperline (unicam_calc_format_size_bpl bound fmt f)) \<le> unat MAX_BYTESPERLINE
    \<and> (4 dvd unat (fst (bound (width f) (height f))) \<longrightarrow>
         unat (fst (bound (width f) (height f)))
           * (if pixelformat f = repacked_fourcc fmt then 16 else unat (depth fmt))
         \<le> 8 * unat (bytesperline (unicam_calc_format_size_bpl bound fmt f)))"
proof -
  let ?w = "fst (bound (width f) (height f))"
  let ?min = "bytes_per_line ?w fmt (pixelformat f)"
  let ?need = "line_bytes fmt (pixelformat f) (unat ?w)"
  let ?out = "unicam_calc_format_size_bpl bound fmt f"
  let ?bpl = "unat (bytesperline ?out)"
  have w': "unat ?w \<le> 16380" using w by (simp add: unat_MAX_WIDTH)
  have d: "unat (depth fmt) \<le> 32" using fmt by (rule formats_depth)
  have m: "unat ?min = round_up_16 ?need"
    using unat_bytes_per_line [OF w' d, of "pixelformat f"]
    by (simp add: round_up_16_def line_bytes_def)
  have need_le: "?need \<le> 65520" using w' d by (rule line_bytes_le)
  have cond: "(?min < bytesperline f \<and> bytesperline f \<le> MAX_BYTESPERLINE) =
      (round_up_16 ?need < unat (bytesperline f) \<and> unat (bytesperline f) \<le> unat MAX_BYTESPERLINE)"
    by (simp add: word_less_nat_alt word_le_nat_alt m)
  have val: "?bpl =
      (if round_up_16 ?need < unat (bytesperline f) \<and> unat (bytesperline f) \<le> unat MAX_BYTESPERLINE
       then round_up_16 (unat (bytesperline f)) else round_up_16 ?need)"
  proof (cases "?min < bytesperline f \<and> bytesperline f \<le> MAX_BYTESPERLINE")
    case True
    then have "unat (bytesperline f) \<le> 65520"
      by (simp add: word_le_nat_alt unat_MAX_BYTESPERLINE)
    then have "unat (ALIGN (bytesperline f) 16) = round_up_16 (unat (bytesperline f))"
      by (simp add: unat_ALIGN_16 round_up_16_def)
    then have "?bpl = round_up_16 (unat (bytesperline f))"
      using True by (simp add: calc_bytesperline BPL_ALIGNMENT_def)
    then show ?thesis using True cond by simp
  next
    case False
    then have eq: "bytesperline ?out = ?min"
      unfolding calc_bytesperline by (rule if_not_P)
    have nc: "\<not> (round_up_16 ?need < unat (bytesperline f)
        \<and> unat (bytesperline f) \<le> unat MAX_BYTESPERLINE)"
      using False cond by blast
    show ?thesis by (simp only: eq m nc if_False)
  qed
  have dvd: "16 dvd ?bpl"
    unfolding val by (simp add: round_up_16_def)
  have ge: "?need \<le> ?bpl"
  proof (cases "round_up_16 ?need < unat (bytesperline f)
      \<and> unat (bytesperline f) \<le> unat MAX_BYTESPERLINE")
    case True
    have b: "?bpl = round_up_16 (unat (bytesperline f))"
      unfolding val using True by (rule if_P)
    have "?need \<le> round_up_16 ?need"
      unfolding round_up_16_def by (rule round_up_16_ge)
    also have "\<dots> \<le> unat (bytesperline f)" using True by simp
    also have "\<dots> \<le> round_up_16 (unat (bytesperline f))"
      unfolding round_up_16_def by (rule round_up_16_ge)
    finally show ?thesis unfolding b .
  next
    case False
    have b: "?bpl = round_up_16 ?need"
      unfolding val using False by (rule if_not_P)
    show ?thesis
      unfolding b round_up_16_def by (rule round_up_16_ge)
  qed
  have le: "?bpl \<le> unat MAX_BYTESPERLINE"
  proof (cases "round_up_16 ?need < unat (bytesperline f)
      \<and> unat (bytesperline f) \<le> unat MAX_BYTESPERLINE")
    case True
    have b: "?bpl = round_up_16 (unat (bytesperline f))"
      unfolding val using True by (rule if_P)
    have "unat (bytesperline f) \<le> 65520"
      using True by (simp add: unat_MAX_BYTESPERLINE)
    then show ?thesis
      unfolding b round_up_16_def unat_MAX_BYTESPERLINE by (rule round_up_16_le)
  next
    case False
    have b: "?bpl = round_up_16 ?need"
      unfolding val using False by (rule if_not_P)
    show ?thesis
      unfolding b round_up_16_def unat_MAX_BYTESPERLINE using need_le by (rule round_up_16_le)
  qed
  have fit: "4 dvd unat ?w \<longrightarrow>
      unat ?w * (if pixelformat f = repacked_fourcc fmt then 16 else unat (depth fmt)) \<le> 8 * ?bpl"
  proof
    assume "4 dvd unat ?w"
    then have "unat ?w * (if pixelformat f = repacked_fourcc fmt then 16 else unat (depth fmt))
        \<le> 8 * ?need"
      using formats_depth_even [OF fmt] by (rule line_bits_fit)
    also have "\<dots> \<le> 8 * ?bpl" using ge by simp
    finally show "unat ?w * (if pixelformat f = repacked_fourcc fmt then 16 else unat (depth fmt))
        \<le> 8 * ?bpl" .
  qed
  have a: "unat BPL_ALIGNMENT = 16" by (simp add: BPL_ALIGNMENT_def)
  show ?thesis
    unfolding a
    by (intro conjI calc_width calc_fields val dvd ge le fit)
qed

lemma ex_bound: "bound_align_image 16 16 = (16, 16)"
  by (simp add: bound_align_image_def clamp_u32_def MIN_WIDTH_def MAX_WIDTH_def MIN_HEIGHT_def
      MAX_HEIGHT_def MAX_BYTESPERLINE_def BPL_ALIGNMENT_def)

lemma ex_min: "bytes_per_line 16 ex_yuyv V4L2_PIX_FMT_YUYV = 32"
  by (simp add: bytes_per_line_def ex_yuyv_def fmt_row_def ALIGN_def BPL_ALIGNMENT_def)

text \<open>
  C8 as the spec words it fails: for a 16-pixel line of YUYV the minimum is 32, and the
  in-range request 33 gives 48, which is neither the request nor the minimum.
\<close>

theorem stride_rule_counterexample:
  "bytes_per_line (fst (bound_align_image 16 16)) ex_yuyv V4L2_PIX_FMT_YUYV = 32
   \<and> (32::u32) < 33 \<and> (33::u32) < MAX_BYTESPERLINE \<and> \<not> 16 dvd unat (33::u32)
   \<and> bytesperline (unicam_calc_format_size_bpl bound_align_image ex_yuyv (ex_pix 16 33)) = 48"
  by (simp add: calc_bytesperline ex_pix_def ex_bound ex_min ALIGN_def BPL_ALIGNMENT_def
      MAX_BYTESPERLINE_def)

lemma ex_bound_640: "bound_align_image 640 480 = (640, 480)"
  by (simp add: bound_align_image_def clamp_u32_def MIN_WIDTH_def MAX_WIDTH_def MIN_HEIGHT_def
      MAX_HEIGHT_def MAX_BYTESPERLINE_def BPL_ALIGNMENT_def)

lemma ex_sbggr10_row: "ex_sbggr10 \<in> set formats"
  by (simp add: formats_def ex_sbggr10_def)

text \<open>
  C9 as the spec words it fails: a 640-pixel line of the repacked 10-bit Bayer format gets
  a stride of 1280 bytes, less than the 1600 of the packed line doubled.
\<close>

theorem layout_alignment_counterexample:
  "ex_sbggr10 \<in> set formats
   \<and> pixelformat (ex_raw10 0) = repacked_fourcc ex_sbggr10
   \<and> width (unicam_calc_format_size_bpl bound_align_image ex_sbggr10 (ex_raw10 0)) = 640
   \<and> bytesperline (unicam_calc_format_size_bpl bound_align_image ex_sbggr10 (ex_raw10 0)) = 1280
   \<and> 2 * (640 * unat (depth ex_sbggr10) div 8) = 1600"
  by (intro conjI ex_sbggr10_row)
     (simp_all add: calc_width calc_bytesperline ex_raw10_def ex_bound_640
        bytes_per_line_def ex_sbggr10_def fmt_row_def ALIGN_def BPL_ALIGNMENT_def)

theorem layout_alignment_postcondition_witness:
  "ex_sbggr10 \<in> set formats
   \<and> unat (fst (bound_align_image 640 480)) \<le> unat MAX_WIDTH
   \<and> 4 dvd unat (fst (bound_align_image 640 480))
   \<and> width (unicam_calc_format_size_bpl bound_align_image ex_sbggr10 (ex_raw10 0)) = 640
   \<and> unat (bytesperline (unicam_calc_format_size_bpl bound_align_image ex_sbggr10 (ex_raw10 0)))
       = 1280
   \<and> 640 * 16 \<le>
       8 * unat (bytesperline (unicam_calc_format_size_bpl bound_align_image ex_sbggr10 (ex_raw10 0)))"
proof -
  have w: "unat (fst (bound_align_image (width (ex_raw10 0)) (height (ex_raw10 0))))
      \<le> unat MAX_WIDTH"
    by (simp add: ex_raw10_def ex_bound_640 unat_MAX_WIDTH)
  show ?thesis
    using ex_sbggr10_row w layout_alignment_postcondition
      [where fmt = ex_sbggr10 and bound = bound_align_image and f = "ex_raw10 0",
       OF ex_sbggr10_row w]
    by (simp add: ex_raw10_def ex_bound_640 ex_sbggr10_def fmt_row_def line_bytes_def
        round_up_16_def unat_MAX_WIDTH)
qed

subsection \<open>Format lookup\<close>

lemma fmt_row_sel:
  "fourcc (fmt_row f r c d t v) = f" "repacked_fourcc (fmt_row f r c d t v) = r"
  "code (fmt_row f r c d t v) = c" "depth (fmt_row f r c d t v) = d"
  "csi_dt (fmt_row f r c d t v) = t" "check_variants (fmt_row f r c d t v) = v"
  by (simp_all add: fmt_row_def)

lemma check_loop_stop:
  "\<not> (ret = 0 \<and> i < MAX_ENUM_MBUS_CODE) \<Longrightarrow> check_mbus_format_loop s f ret i = 0"
  by (subst check_mbus_format_loop.simps) auto

lemma check_loop_hit:
  "i < MAX_ENUM_MBUS_CODE \<Longrightarrow> s (of_nat i) = (0, code f) \<Longrightarrow> check_mbus_format_loop s f 0 i = 1"
  by (subst check_mbus_format_loop.simps) simp

lemma check_loop_miss:
  "i < MAX_ENUM_MBUS_CODE \<Longrightarrow> s (of_nat i) = (r, c) \<Longrightarrow> \<not> (r = 0 \<and> c = code f) \<Longrightarrow>
     check_mbus_format_loop s f 0 i = check_mbus_format_loop s f r (i + 1)"
  by (subst check_mbus_format_loop.simps) auto

lemma check_loop_range:
  "check_mbus_format_loop s f ret i = 0 \<or> check_mbus_format_loop s f ret i = 1"
proof (induction s f ret i rule: check_mbus_format_loop.induct)
  case (1 sensor format ret i)
  show ?case
  proof (cases "ret = 0 \<and> i < MAX_ENUM_MBUS_CODE")
    case False
    then show ?thesis by (simp add: check_loop_stop)
  next
    case True
    obtain r c where s: "sensor (of_nat i) = (r, c)" by (cases "sensor (of_nat i)")
    show ?thesis
    proof (cases "r = 0 \<and> c = code format")
      case hit: True
      then show ?thesis using True s by (simp add: check_loop_hit)
    next
      case miss: False
      show ?thesis
        using "1.IH" [OF True s [symmetric] miss] True s miss
          check_loop_miss [of i sensor r c format]
        by simp
    qed
  qed
qed

lemma check_loop_1_iff:
  "check_mbus_format_loop s f ret i = 1 \<longleftrightarrow>
     ret = 0 \<and> (\<exists>k. i \<le> k \<and> k < MAX_ENUM_MBUS_CODE \<and> s (of_nat k) = (0, code f)
        \<and> (\<forall>j. i \<le> j \<and> j < k \<longrightarrow> fst (s (of_nat j)) = 0))"
proof (induction s f ret i rule: check_mbus_format_loop.induct)
  case (1 sensor format ret i)
  show ?case
  proof (cases "ret = 0 \<and> i < MAX_ENUM_MBUS_CODE")
    case False
    then show ?thesis
      using check_loop_stop [OF False] by auto
  next
    case True
    obtain r c where s: "sensor (of_nat i) = (r, c)" by (cases "sensor (of_nat i)")
    show ?thesis
    proof (cases "r = 0 \<and> c = code format")
      case hit: True
      have "check_mbus_format_loop sensor format ret i = 1"
        using True s hit by (simp add: check_loop_hit)
      moreover have "\<exists>k. i \<le> k \<and> k < MAX_ENUM_MBUS_CODE \<and> sensor (of_nat k) = (0, code format)
        \<and> (\<forall>j. i \<le> j \<and> j < k \<longrightarrow> fst (sensor (of_nat j)) = 0)"
        using True s hit by (intro exI [of _ i]) auto
      ultimately show ?thesis using True by simp
    next
      case miss: False
      have eq: "check_mbus_format_loop sensor format ret i =
          check_mbus_format_loop sensor format r (i + 1)"
        using True s miss check_loop_miss [of i sensor r c format] by simp
      have IH: "check_mbus_format_loop sensor format r (i + 1) = 1 \<longleftrightarrow>
         r = 0 \<and> (\<exists>k. i + 1 \<le> k \<and> k < MAX_ENUM_MBUS_CODE \<and> sensor (of_nat k) = (0, code format)
           \<and> (\<forall>j. i + 1 \<le> j \<and> j < k \<longrightarrow> fst (sensor (of_nat j)) = 0))"
        using "1.IH" [OF True s [symmetric] miss] .
      show ?thesis
      proof
        assume "check_mbus_format_loop sensor format ret i = 1"
        then obtain k where r: "r = 0" and k: "i + 1 \<le> k" "k < MAX_ENUM_MBUS_CODE"
            "sensor (of_nat k) = (0, code format)"
            "\<forall>j. i + 1 \<le> j \<and> j < k \<longrightarrow> fst (sensor (of_nat j)) = 0"
          using eq IH by auto
        have "\<forall>j. i \<le> j \<and> j < k \<longrightarrow> fst (sensor (of_nat j)) = 0"
        proof (intro allI impI)
          fix j assume "i \<le> j \<and> j < k"
          then show "fst (sensor (of_nat j)) = 0"
            using k(4) s r by (cases "j = i") auto
        qed
        then show "ret = 0 \<and> (\<exists>k. i \<le> k \<and> k < MAX_ENUM_MBUS_CODE \<and> sensor (of_nat k) = (0, code format)
          \<and> (\<forall>j. i \<le> j \<and> j < k \<longrightarrow> fst (sensor (of_nat j)) = 0))"
          using True k by (intro conjI exI [of _ k]) auto
      next
        assume "ret = 0 \<and> (\<exists>k. i \<le> k \<and> k < MAX_ENUM_MBUS_CODE \<and> sensor (of_nat k) = (0, code format)
          \<and> (\<forall>j. i \<le> j \<and> j < k \<longrightarrow> fst (sensor (of_nat j)) = 0))"
        then obtain k where k: "i \<le> k" "k < MAX_ENUM_MBUS_CODE"
            "sensor (of_nat k) = (0, code format)"
            "\<forall>j. i \<le> j \<and> j < k \<longrightarrow> fst (sensor (of_nat j)) = 0"
          by auto
        have "k \<noteq> i" using k(3) s miss by auto
        then have "i + 1 \<le> k" "i < k" using k(1) by auto
        moreover have "r = 0" using k(4) \<open>i < k\<close> s by force
        moreover have "\<forall>j. i + 1 \<le> j \<and> j < k \<longrightarrow> fst (sensor (of_nat j)) = 0"
          using k(4) by auto
        ultimately have "r = 0 \<and> (\<exists>k. i + 1 \<le> k \<and> k < MAX_ENUM_MBUS_CODE
           \<and> sensor (of_nat k) = (0, code format)
           \<and> (\<forall>j. i + 1 \<le> j \<and> j < k \<longrightarrow> fst (sensor (of_nat j)) = 0))"
          using k(2,3) by blast
        then have "check_mbus_format_loop sensor format r (i + 1) = 1"
          using IH by blast
        then show "check_mbus_format_loop sensor format ret i = 1" using eq by simp
      qed
    qed
  qed
qed

lemma check_mbus_format_iff: "check_mbus_format s f \<noteq> 0 \<longleftrightarrow> enumerates s (code f)"
proof -
  have "check_mbus_format s f \<noteq> 0 \<longleftrightarrow> check_mbus_format s f = 1"
    using check_loop_range [of s f 0 0] by (auto simp add: check_mbus_format_def)
  also have "\<dots> \<longleftrightarrow> enumerates s (code f)"
    unfolding check_mbus_format_def check_loop_1_iff enumerates_def by simp
  finally show ?thesis .
qed






lemma ex_not_enumerates: "\<not> enumerates ex_sensor_1x16 MEDIA_BUS_FMT_YUYV8_2X8"
  by (simp add: enumerates_def ex_sensor_1x16_def EINVAL_def)



lemma gfsf_loop_exhausted:
  "ret = - EINVAL \<or> ret = - ENOIOCTLCMD \<Longrightarrow>
     get_first_supported_format_loop s ret j = Some None"
  by (subst get_first_supported_format_loop.simps) auto

lemma gfsf_loop_exit:
  assumes ret: "ret \<noteq> - EINVAL" "ret \<noteq> - ENOIOCTLCMD" and ex: "loop_exit_at s j"
  shows "get_first_supported_format_loop s ret j =
     Some (if fst (s j) < 0 then None else find_format_by_code (snd (s j)))"
proof -
  obtain r c where s: "s j = (r, c)" by (cases "s j")
  show ?thesis
  proof (cases "r < 0")
    case True
    then have "r = - EINVAL \<or> r = - ENOIOCTLCMD"
      using ex s by (auto simp add: loop_exit_at_def)
    then have "get_first_supported_format_loop s r (j + 1) = Some None"
      by (rule gfsf_loop_exhausted)
    then show ?thesis
      using ret s True by (subst get_first_supported_format_loop.simps) simp
  next
    case False
    then obtain fmt where "find_format_by_code c = Some fmt"
      using ex s by (auto simp add: loop_exit_at_def EINVAL_def ENOIOCTLCMD_def)
    then show ?thesis
      using ret s False by (subst get_first_supported_format_loop.simps) simp
  qed
qed

lemma gfsf_loop_continue:
  assumes ret: "ret \<noteq> - EINVAL" "ret \<noteq> - ENOIOCTLCMD" and ex: "\<not> loop_exit_at s j"
  shows "get_first_supported_format_loop s ret j =
           get_first_supported_format_loop s (fst (s j)) (j + 1)
         \<and> fst (s j) \<noteq> - EINVAL \<and> fst (s j) \<noteq> - ENOIOCTLCMD"
proof -
  obtain r c where s: "s j = (r, c)" by (cases "s j")
  have r: "r \<noteq> - EINVAL" "r \<noteq> - ENOIOCTLCMD" and c: "r < 0 \<or> find_format_by_code c = None"
    using ex s by (auto simp add: loop_exit_at_def)
  have "get_first_supported_format_loop s ret j = get_first_supported_format_loop s r (j + 1)"
    using ret s c by (subst get_first_supported_format_loop.simps) auto
  then show ?thesis using r s by simp
qed

lemma gfsf_loop_first_exit:
  "ret \<noteq> - EINVAL \<Longrightarrow> ret \<noteq> - ENOIOCTLCMD \<Longrightarrow> unat k - unat j = n \<Longrightarrow> j \<le> k \<Longrightarrow>
   (\<forall>i. j \<le> i \<and> i < k \<longrightarrow> \<not> loop_exit_at s i) \<Longrightarrow> loop_exit_at s k \<Longrightarrow>
   get_first_supported_format_loop s ret j =
     Some (if fst (s k) < 0 then None else find_format_by_code (snd (s k)))"
proof (induction n arbitrary: ret j)
  case 0
  then have "unat j = unat k"
    by (simp add: word_le_nat_alt)
  then have "j = k" by (simp add: word_unat_eq_iff)
  then show ?case using 0 by (simp add: gfsf_loop_exit)
next
  case (Suc n)
  then have lt: "unat j < unat k" by simp
  then have jk: "j < k" by (simp add: word_less_nat_alt)
  have "unat k < 2 ^ 32" using unsigned_less [of k, where 'a = nat] by simp
  then have u: "unat (j + 1) = unat j + 1"
    using lt by (simp add: unat_word_ariths)
  have nex: "\<not> loop_exit_at s j" using Suc.prems(5) jk by simp
  note c = gfsf_loop_continue [OF Suc.prems(1,2) nex]
  have "get_first_supported_format_loop s (fst (s j)) (j + 1) =
      Some (if fst (s k) < 0 then None else find_format_by_code (snd (s k)))"
  proof (rule Suc.IH)
    show "fst (s j) \<noteq> - EINVAL" "fst (s j) \<noteq> - ENOIOCTLCMD" using c by simp_all
    show "unat k - unat (j + 1) = n" using Suc.prems(3) u by simp
    show "j + 1 \<le> k" using lt u by (simp add: word_le_nat_alt)
    show "\<forall>i. j + 1 \<le> i \<and> i < k \<longrightarrow> \<not> loop_exit_at s i"
      using Suc.prems(5) u by (auto simp add: word_le_nat_alt word_less_nat_alt)
    show "loop_exit_at s k" by fact
  qed
  then show ?case using c by simp
qed

lemma gfsf_loop_returns:
  assumes "get_first_supported_format_loop s ret j = Some y"
  shows "ret = - EINVAL \<or> ret = - ENOIOCTLCMD \<or> (\<exists>k. loop_exit_at s k)"
proof (rule get_first_supported_format_loop.raw_induct
    [where P = "\<lambda>s ret j y. ret = - EINVAL \<or> ret = - ENOIOCTLCMD \<or> (\<exists>k. loop_exit_at s k)",
     OF _ assms])
  fix loop :: "enum_mbus_code \<Rightarrow> int \<Rightarrow> u32 \<Rightarrow> unicam_fmt option option"
    and sensor ret j y
  assume IH: "\<And>sensor ret j y. loop sensor ret j = Some y \<Longrightarrow>
      ret = - EINVAL \<or> ret = - ENOIOCTLCMD \<or> (\<exists>k. loop_exit_at sensor k)"
    and body: "(if ret \<noteq> - EINVAL \<and> ret \<noteq> - ENOIOCTLCMD
      then case sensor j of
           (ret', c) \<Rightarrow>
             if ret' < 0 then loop sensor ret' (j + 1)
             else case find_format_by_code c of
                  None \<Rightarrow> loop sensor ret' (j + 1)
                  | Some fmt \<Rightarrow> Some (Some fmt)
      else Some None) = Some y"
  show "ret = - EINVAL \<or> ret = - ENOIOCTLCMD \<or> (\<exists>k. loop_exit_at sensor k)"
  proof (cases "ret \<noteq> - EINVAL \<and> ret \<noteq> - ENOIOCTLCMD")
    case False
    then show ?thesis by blast
  next
    case True
    show ?thesis
    proof (cases "loop_exit_at sensor j")
      case True
      then show ?thesis by blast
    next
      case False
      obtain r c where s: "sensor j = (r, c)" by (cases "sensor j")
      have r: "r \<noteq> - EINVAL" "r \<noteq> - ENOIOCTLCMD" and c: "r < 0 \<or> find_format_by_code c = None"
        using False s by (auto simp add: loop_exit_at_def)
      have "loop sensor r (j + 1) = Some y"
        using body True s c by (auto split: if_splits)
      then show ?thesis using IH r by blast
    qed
  qed
qed

text \<open>
  In the driver's table the second row of YUYV is not flagged: a sensor that has only that
  row's code gets it, past the flagged first row.
\<close>

lemma find_yuyv_second_row:
  "find_format_by_pix ex_sensor_1x16 V4L2_PIX_FMT_YUYV =
     Some (fmt_row V4L2_PIX_FMT_YUYV PIX_FMT_0 MEDIA_BUS_FMT_YUYV8_1X16 16 0x1e 0)"
proof -
  have "check_mbus_format ex_sensor_1x16
      (fmt_row V4L2_PIX_FMT_YUYV PIX_FMT_0 MEDIA_BUS_FMT_YUYV8_2X8 16 0x1e 1) = 0"
    using ex_not_enumerates check_mbus_format_iff [of ex_sensor_1x16 ex_yuyv]
    by (simp add: ex_yuyv_def fmt_row_sel)
  then show ?thesis
    by (simp add: find_format_by_pix_def formats_def fmt_row_sel)
qed

text \<open>
  C10, as the code has it. The loop of \<open>get_first_supported_format\<close> has no bound on
  the index. When the indeterminate first value of \<open>ret\<close> is one of the two errors of
  the loop condition, the function returns \<open>NULL\<close> without asking the sensor.
  Otherwise it returns exactly when there is an index at which the sensor answers one of
  the two errors or a code that the table has; the result is decided at the first such
  index, however large: \<open>NULL\<close> for an error, the table's row for a code. For a
  sensor that answers only other errors and codes the table lacks, it does not return.
\<close>

theorem get_first_supported_format_termination:
  "(ri = - EINVAL \<or> ri = - ENOIOCTLCMD \<longrightarrow> get_first_supported_format si ri = Some None)
   \<and> (ret \<noteq> - EINVAL \<and> ret \<noteq> - ENOIOCTLCMD \<longrightarrow>
        (get_first_supported_format s ret \<noteq> None) = (\<exists>j. loop_exit_at s j))
   \<and> (ret' \<noteq> - EINVAL \<and> ret' \<noteq> - ENOIOCTLCMD \<and> loop_exit_at s' k
        \<and> (\<forall>j<k. \<not> loop_exit_at s' j) \<longrightarrow>
        get_first_supported_format s' ret' =
          Some (if fst (s' k) < 0 then None else find_format_by_code (snd (s' k))))"
proof (intro conjI impI)
  assume "ri = - EINVAL \<or> ri = - ENOIOCTLCMD"
  then show "get_first_supported_format si ri = Some None"
    by (simp add: get_first_supported_format_def gfsf_loop_exhausted)
next
  assume a: "ret' \<noteq> - EINVAL \<and> ret' \<noteq> - ENOIOCTLCMD \<and> loop_exit_at s' k
        \<and> (\<forall>j<k. \<not> loop_exit_at s' j)"
  then show "get_first_supported_format s' ret' =
          Some (if fst (s' k) < 0 then None else find_format_by_code (snd (s' k)))"
    unfolding get_first_supported_format_def
    by (intro gfsf_loop_first_exit [where n = "unat k - unat (0::u32)"]) auto
next
  assume ret: "ret \<noteq> - EINVAL \<and> ret \<noteq> - ENOIOCTLCMD"
  show "(get_first_supported_format s ret \<noteq> None) = (\<exists>j. loop_exit_at s j)"
  proof
    assume "get_first_supported_format s ret \<noteq> None"
    then obtain y where "get_first_supported_format_loop s ret 0 = Some y"
      by (auto simp add: get_first_supported_format_def)
    then show "\<exists>j. loop_exit_at s j"
      using gfsf_loop_returns ret by blast
  next
    assume "\<exists>j. loop_exit_at s j"
    then obtain k where k: "loop_exit_at s k" "\<forall>j<k. \<not> loop_exit_at s j"
      using exists_least_iff [of "loop_exit_at s"] by blast
    have "get_first_supported_format_loop s ret 0 =
        Some (if fst (s k) < 0 then None else find_format_by_code (snd (s k)))"
      using ret k by (intro gfsf_loop_first_exit [where n = "unat k - unat (0::u32)"]) auto
    then show "get_first_supported_format s ret \<noteq> None"
      by (simp add: get_first_supported_format_def)
  qed
qed

lemma find_code_yuyv: "find_format_by_code MEDIA_BUS_FMT_YUYV8_2X8 = Some ex_yuyv"
  by (simp add: find_format_by_code_def formats_def ex_yuyv_def fmt_row_sel)

lemma find_code_other: "find_format_by_code (MEDIA_BUS_FMT_other n) = None"
  by (simp add: find_format_by_code_def formats_def fmt_row_sel)

lemma ex_late_exit: "loop_exit_at ex_sensor_late 200"
  by (simp add: loop_exit_at_def ex_sensor_late_def find_code_yuyv)

lemma ex_late_no_exit: "j < 200 \<Longrightarrow> \<not> loop_exit_at ex_sensor_late j"
  by (auto simp add: loop_exit_at_def ex_sensor_late_def find_code_other EINVAL_def
      ENOIOCTLCMD_def)

text \<open>
  C10 as the spec words it fails: a sensor that answers a code at every index and never
  an error makes the function return, at index 0, when the code is one of the table.
\<close>

theorem get_first_supported_format_counterexample:
  "get_first_supported_format ex_sensor_codes 0 = Some (Some ex_yuyv)"
proof -
  have "loop_exit_at ex_sensor_codes 0"
    by (simp add: loop_exit_at_def ex_sensor_codes_def find_code_yuyv)
  then show ?thesis
    using gfsf_loop_exit [of 0 ex_sensor_codes 0]
    by (simp add: get_first_supported_format_def ex_sensor_codes_def find_code_yuyv EINVAL_def
        ENOIOCTLCMD_def)
qed

theorem get_first_supported_format_termination_witness:
  "get_first_supported_format ex_sensor_codes (- EINVAL) = Some None
   \<and> (0::int) \<noteq> - EINVAL \<and> (0::int) \<noteq> - ENOIOCTLCMD
   \<and> loop_exit_at ex_sensor_late 200 \<and> \<not> loop_exit_at ex_sensor_late 199
   \<and> get_first_supported_format ex_sensor_late 0 = Some (Some ex_yuyv)"
proof -
  have r: "(0::int) \<noteq> - EINVAL \<and> (0::int) \<noteq> - ENOIOCTLCMD"
    by (simp add: EINVAL_def ENOIOCTLCMD_def)
  have n: "\<forall>j<200. \<not> loop_exit_at ex_sensor_late j"
    using ex_late_no_exit by blast
  show ?thesis
    using get_first_supported_format_termination
      [where ri = "- EINVAL" and si = ex_sensor_codes and ret = 0 and s = ex_sensor_late
         and ret' = 0 and s' = ex_sensor_late and k = 200]
      r n ex_late_exit
    by (simp add: ex_sensor_late_def find_code_yuyv)
qed

subsection \<open>The interrupt handler\<close>

lemmas hw_defs = reg_write_def reg_write_field_def hw_call_def unicam_wr_dma_addr_def
  vb2_buffer_done_def

text \<open>
  C1. When the queue is empty and the current and next slots hold the same buffer, an
  invocation of \<open>unicam_isr\<close> (for any status it reads, so in particular at the end of
  a frame) returns \<open>IRQ_HANDLED\<close>, hands no buffer back, and leaves both slots, the
  queue, the sequence counter and the streaming flag as they were: current and next are
  equal before and after. What it does to the hardware is to acknowledge the two status
  registers and, in trigger mode, to leave that mode: it neither disables the receiver
  nor writes a DMA address.
\<close>

theorem starvation_invariant:
  assumes "dma_queue dev = []" and "cur_frm dev = next_frm dev"
  shows "\<exists>dev'. unicam_isr h rd dev = Some (IRQ_HANDLED, dev')
     \<and> done_log dev' = done_log dev
     \<and> cur_frm dev' = cur_frm dev \<and> next_frm dev' = next_frm dev
     \<and> cur_frm dev' = next_frm dev'
     \<and> dma_queue dev' = [] \<and> sequence dev' = sequence dev \<and> streaming dev' = streaming dev
     \<and> hw dev' = hw dev @
          (if streaming dev = 0 then []
           else [Reg_write UNICAM_STA (rd_STA rd), Reg_write UNICAM_ISTA (rd_ISTA rd)] @
             (if rd_STA rd \<noteq> 0 \<and> UNICAM_IS h OR UNICAM_PI0 h \<noteq> 0
                 \<and> rd_ICTL rd AND UNICAM_FCM h \<noteq> 0
              then [Reg_write UNICAM_ICTL (set_field (rd_ICTL_tfc rd) 1 (UNICAM_TFC h)),
                    Reg_write UNICAM_ICTL (set_field (rd_ICTL_fcm rd) 0 (UNICAM_FCM h))]
              else []))"
proof (cases "cur_frm dev")
  case None
  then have "next_frm dev = None" using assms(2) by simp
  then show ?thesis
    using assms(1) None by (simp add: unicam_isr_def Let_def hw_defs)
next
  case (Some c)
  then have "next_frm dev = Some c" using assms(2) by simp
  then show ?thesis
    using assms(1) Some by (simp add: unicam_isr_def Let_def hw_defs)
qed

theorem starvation_invariant_witness:
  "dma_queue (ex_dev (Some 0) (Some 0) []) = []
   \<and> cur_frm (ex_dev (Some 0) (Some 0) []) = next_frm (ex_dev (Some 0) (Some 0) [])
   \<and> (\<exists>dev'. unicam_isr vc4_regs ex_frame_end (ex_dev (Some 0) (Some 0) []) = Some (IRQ_HANDLED, dev')
        \<and> done_log dev' = [] \<and> cur_frm dev' = Some 0 \<and> next_frm dev' = Some 0
        \<and> hw dev' = [Reg_write UNICAM_STA (UNICAM_IS vc4_regs),
                      Reg_write UNICAM_ISTA (UNICAM_FEI vc4_regs)])"
  using starvation_invariant [of "ex_dev (Some 0) (Some 0) []" vc4_regs ex_frame_end]
  by (auto simp add: ex_dev_def ex_frame_end_def ex_irq_def)

lemmas isr_defs = unicam_isr_def Let_def hw_defs unicam_schedule_next_buffer_def
  unicam_process_buffer_complete_def

lemma isr_step:
  "\<exists>dev'. unicam_isr h rd dev = Some (IRQ_HANDLED, dev')
     \<and> (done_log dev' = done_log dev \<and> sequence dev' = sequence dev
        \<or> (\<exists>x. done_log dev' = done_log dev @ [x] \<and> vb_sequence (done_vb x) = sequence dev
              \<and> done_state x = VB2_BUF_STATE_DONE \<and> sequence dev' = sequence dev + 1))"
proof (cases "cur_frm dev")
  case None
  show ?thesis
  proof (cases "next_frm dev")
    case n: None
    show ?thesis
      using None n by (cases "dma_queue dev") (simp_all add: isr_defs)
  next
    case n: (Some b)
    show ?thesis
      using None n by (cases "dma_queue dev") (simp_all add: isr_defs)
  qed
next
  case (Some c)
  show ?thesis
  proof (cases "next_frm dev = Some c")
    case True
    show ?thesis
      using Some True by (cases "dma_queue dev") (simp_all add: isr_defs)
  next
    case False
    show ?thesis
      using Some False by (cases "dma_queue dev") (simp_all add: isr_defs)
  qed
qed

lemma step_sequence:
  "\<exists>dev'. step h e dev = Some dev'
     \<and> (done_sequences dev' = done_sequences dev \<and> sequence dev' = sequence dev
        \<or> done_sequences dev' = done_sequences dev @ [sequence dev]
          \<and> sequence dev' = sequence dev + 1)"
proof (cases e)
  case (Irq rd)
  then show ?thesis
    using isr_step [of h rd dev] by (auto simp add: step_def done_sequences_def)
next
  case (Submit b)
  then show ?thesis
    by (simp add: step_def unicam_buffer_queue_def done_sequences_def)
qed

text \<open>
  C2, as the code has it. The sequence counter moves only in
  \<open>unicam_process_buffer_complete\<close>, so a dropped frame leaves it alone: over every run
  of interrupts and submissions, with any number of dropped frames, the buffers handed
  back carry the consecutive numbers \<open>sequence\<close>, \<open>sequence + 1\<close>, ... (modulo \<open>2^32\<close>),
  and two completions in a row differ by one. The handler never faults, so every run has
  a result.
\<close>

theorem completions_carry_consecutive_sequence_numbers:
  "\<exists>dev' n. run h es dev = Some dev'
     \<and> sequence dev' = sequence dev + of_nat n
     \<and> done_sequences dev' =
         done_sequences dev @ map (\<lambda>i. sequence dev + of_nat i) [0..<n]"
proof (induction es arbitrary: dev)
  case Nil
  show ?case by (rule exI [of _ dev], rule exI [of _ 0]) simp
next
  case (Cons e es)
  obtain dev1 where s: "step h e dev = Some dev1"
    and d: "done_sequences dev1 = done_sequences dev \<and> sequence dev1 = sequence dev
        \<or> done_sequences dev1 = done_sequences dev @ [sequence dev]
          \<and> sequence dev1 = sequence dev + 1"
    using step_sequence [of h e dev] by blast
  obtain dev' n where r: "run h es dev1 = Some dev'"
    and q: "sequence dev' = sequence dev1 + of_nat n"
    and l: "done_sequences dev' =
         done_sequences dev1 @ map (\<lambda>i. sequence dev1 + of_nat i) [0..<n]"
    using Cons.IH [of dev1] by blast
  from d show ?case
  proof
    assume "done_sequences dev1 = done_sequences dev \<and> sequence dev1 = sequence dev"
    then show ?thesis
      using s r q l by (intro exI [of _ dev'] exI [of _ n]) simp
  next
    assume a: "done_sequences dev1 = done_sequences dev @ [sequence dev]
          \<and> sequence dev1 = sequence dev + 1"
    have "map (\<lambda>i. sequence dev + of_nat i) [0..<Suc n] =
        sequence dev # map (\<lambda>i. sequence dev + 1 + of_nat i) [0..<n]"
      by (simp add: map_upt_Suc add.assoc del: upt_Suc)
    then show ?thesis
      using s r q l a by (intro exI [of _ dev'] exI [of _ "Suc n"]) (simp add: add.assoc)
  qed
qed

lemma ex_consts:
  "UNICAM_IS vc4_regs = 16384" "UNICAM_PI0 vc4_regs = 32768" "UNICAM_FSI vc4_regs = 1"
  "UNICAM_FEI vc4_regs = 2" "UNICAM_LCI vc4_regs = 4" "UNICAM_FCM vc4_regs = 8"
  "UNICAM_TFC vc4_regs = 16"
  by (simp_all add: vc4_regs_def)

lemmas ex_defs = ex_dev_def ex_frame_end_def ex_frame_start_def ex_irq_def ex_consts ex_bufs_def

text \<open>
  C2 as the spec words it fails: in the example run buffer 0 is handed back, one frame is
  dropped, and buffer 1 is handed back; their sequence numbers are 0 and 1, not 0 and 2.
\<close>

theorem sequence_gap_counterexample:
  "map_option done_sequences (run vc4_regs ex_events (ex_dev (Some 0) (Some 1) [])) = Some [0, 1]
   \<and> map_option (map done_buf \<circ> done_log) (run vc4_regs ex_events (ex_dev (Some 0) (Some 1) []))
       = Some [0, 1]
   \<and> dropped_frames vc4_regs ex_events (ex_dev (Some 0) (Some 1) []) = 1"
  by (simp add: ex_events_def step_def drops_frame_def frame_end_def isr_defs ex_defs
      unicam_buffer_queue_def done_sequences_def)

lemma isr_schedules:
  assumes "streaming dev \<noteq> 0" and "cur_frm dev = Some c" and "next_frm dev = Some c"
    and "dma_queue dev = b # rest"
    and "rd_STA rd \<noteq> 0" and "UNICAM_IS h OR UNICAM_PI0 h \<noteq> 0"
    and "rd_ISTA rd AND (UNICAM_FSI h OR UNICAM_LCI h) \<noteq> 0"
  shows "\<exists>dev1. unicam_isr h rd dev = Some (IRQ_HANDLED, dev1)
     \<and> cur_frm dev1 = Some c \<and> next_frm dev1 = Some b \<and> dma_queue dev1 = rest
     \<and> done_log dev1 = done_log dev \<and> sequence dev1 = sequence dev
     \<and> streaming dev1 = streaming dev
     \<and> hw dev1 = hw dev @
          [Reg_write UNICAM_STA (rd_STA rd), Reg_write UNICAM_ISTA (rd_ISTA rd),
           Reg_write UNICAM_IBSA0 (plane_dma_addr (bufs dev b)),
           Reg_write UNICAM_IBEA0 (plane_dma_addr (bufs dev b) + sizeimage (v_fmt dev))] @
          (if rd_ICTL rd AND UNICAM_FCM h \<noteq> 0
           then [Reg_write UNICAM_ICTL (set_field (rd_ICTL_tfc rd) 1 (UNICAM_TFC h)),
                 Reg_write UNICAM_ICTL (set_field (rd_ICTL_fcm rd) 0 (UNICAM_FCM h))]
           else [])"
  using assms by (simp add: isr_defs)

lemma isr_completes:
  assumes "streaming dev \<noteq> 0" and "cur_frm dev = Some c" and "next_frm dev = Some b"
    and "b \<noteq> c"
    and "rd_STA rd \<noteq> 0" and "UNICAM_IS h OR UNICAM_PI0 h \<noteq> 0"
    and "frame_end h rd"
  shows "\<exists>dev2 vb. unicam_isr h rd dev = Some (IRQ_HANDLED, dev2)
     \<and> cur_frm dev2 = Some b
     \<and> done_log dev2 = done_log dev @
          [\<lparr>done_buf = c, done_state = VB2_BUF_STATE_DONE, done_vb = vb\<rparr>]
     \<and> vb_sequence vb = sequence dev \<and> vb_field vb = m_fmt_field dev
     \<and> sequence dev2 = sequence dev + 1"
  using assms
  by (cases "dma_queue dev") (auto simp add: isr_defs frame_end_def)

text \<open>
  C5, as the code has it. In an active stream with current and next equal and a buffer
  \<open>b\<close> at the head of the queue, the next interrupt that carries the frame-start or
  the line-count bit (with a non-zero status word) takes \<open>b\<close> into the next slot and
  writes its DMA address to the start and end registers; it hands nothing back. The
  frame end after that (the frame-end bit or the packet-compare flag) hands the old
  current buffer back as done, with the sequence number of the counter, and makes \<open>b\<close>
  current. An interrupt that carries only the frame-end bit does not take the buffer.
\<close>

theorem starvation_recovery:
  assumes "streaming dev \<noteq> 0" and "cur_frm dev = Some c" and "next_frm dev = Some c"
    and "dma_queue dev = b # rest" and "b \<noteq> c"
    and "UNICAM_IS h OR UNICAM_PI0 h \<noteq> 0"
    and "rd_STA rd \<noteq> 0" and "rd_ISTA rd AND (UNICAM_FSI h OR UNICAM_LCI h) \<noteq> 0"
    and "rd_STA rd' \<noteq> 0" and "frame_end h rd'"
  shows "\<exists>dev1 dev2 vb.
       unicam_isr h rd dev = Some (IRQ_HANDLED, dev1)
     \<and> cur_frm dev1 = Some c \<and> next_frm dev1 = Some b \<and> dma_queue dev1 = rest
     \<and> done_log dev1 = done_log dev
     \<and> hw dev1 = hw dev @
          [Reg_write UNICAM_STA (rd_STA rd), Reg_write UNICAM_ISTA (rd_ISTA rd),
           Reg_write UNICAM_IBSA0 (plane_dma_addr (bufs dev b)),
           Reg_write UNICAM_IBEA0 (plane_dma_addr (bufs dev b) + sizeimage (v_fmt dev))] @
          (if rd_ICTL rd AND UNICAM_FCM h \<noteq> 0
           then [Reg_write UNICAM_ICTL (set_field (rd_ICTL_tfc rd) 1 (UNICAM_TFC h)),
                 Reg_write UNICAM_ICTL (set_field (rd_ICTL_fcm rd) 0 (UNICAM_FCM h))]
           else [])
     \<and> unicam_isr h rd' dev1 = Some (IRQ_HANDLED, dev2)
     \<and> cur_frm dev2 = Some b
     \<and> done_log dev2 = done_log dev @
          [\<lparr>done_buf = c, done_state = VB2_BUF_STATE_DONE, done_vb = vb\<rparr>]
     \<and> vb_sequence vb = sequence dev"
proof -
  obtain dev1 where 1: "unicam_isr h rd dev = Some (IRQ_HANDLED, dev1)"
      "cur_frm dev1 = Some c" "next_frm dev1 = Some b" "dma_queue dev1 = rest"
      "done_log dev1 = done_log dev" "sequence dev1 = sequence dev"
      "streaming dev1 = streaming dev"
      "hw dev1 = hw dev @
          [Reg_write UNICAM_STA (rd_STA rd), Reg_write UNICAM_ISTA (rd_ISTA rd),
           Reg_write UNICAM_IBSA0 (plane_dma_addr (bufs dev b)),
           Reg_write UNICAM_IBEA0 (plane_dma_addr (bufs dev b) + sizeimage (v_fmt dev))] @
          (if rd_ICTL rd AND UNICAM_FCM h \<noteq> 0
           then [Reg_write UNICAM_ICTL (set_field (rd_ICTL_tfc rd) 1 (UNICAM_TFC h)),
                 Reg_write UNICAM_ICTL (set_field (rd_ICTL_fcm rd) 0 (UNICAM_FCM h))]
           else [])"
    using isr_schedules [OF assms(1,2,3,4,7,6,8)] by blast
  have s1: "streaming dev1 \<noteq> 0" using 1(7) assms(1) by simp
  obtain dev2 vb where 2: "unicam_isr h rd' dev1 = Some (IRQ_HANDLED, dev2)"
      "cur_frm dev2 = Some b"
      "done_log dev2 = done_log dev1 @
          [\<lparr>done_buf = c, done_state = VB2_BUF_STATE_DONE, done_vb = vb\<rparr>]"
      "vb_sequence vb = sequence dev1"
    using isr_completes [OF s1 1(2,3) assms(5,9,6,10)] by blast
  show ?thesis
    using 1 2 by (intro exI [of _ dev1] exI [of _ dev2] exI [of _ vb]) simp
qed

text \<open>
  C5 as the spec words it fails: at a frame-end interrupt without the frame-start and
  line-count bits, the queued buffer 1 stays queued, the next slot keeps buffer 0, and no
  DMA address is written.
\<close>

theorem starvation_recovery_counterexample:
  "map_option (\<lambda>(r, d). (next_frm d, dma_queue d, hw d))
     (unicam_isr vc4_regs ex_frame_end (ex_dev (Some 0) (Some 0) [1])) =
   Some (Some 0, [1],
     [Reg_write UNICAM_STA (UNICAM_IS vc4_regs), Reg_write UNICAM_ISTA (UNICAM_FEI vc4_regs)])"
  by (simp add: isr_defs ex_defs)

theorem starvation_recovery_witness:
  "streaming (ex_dev (Some 0) (Some 0) [1]) \<noteq> 0
   \<and> UNICAM_IS vc4_regs OR UNICAM_PI0 vc4_regs \<noteq> 0
   \<and> rd_STA ex_frame_start \<noteq> 0
   \<and> rd_ISTA ex_frame_start AND (UNICAM_FSI vc4_regs OR UNICAM_LCI vc4_regs) \<noteq> 0
   \<and> rd_STA ex_frame_end \<noteq> 0 \<and> frame_end vc4_regs ex_frame_end
   \<and> (\<exists>dev1 dev2 vb.
         unicam_isr vc4_regs ex_frame_start (ex_dev (Some 0) (Some 0) [1]) = Some (IRQ_HANDLED, dev1)
       \<and> next_frm dev1 = Some 1 \<and> dma_queue dev1 = []
       \<and> hw dev1 = [Reg_write UNICAM_STA 16384, Reg_write UNICAM_ISTA 1,
                     Reg_write UNICAM_IBSA0 8192, Reg_write UNICAM_IBEA0 8704]
       \<and> unicam_isr vc4_regs ex_frame_end dev1 = Some (IRQ_HANDLED, dev2)
       \<and> cur_frm dev2 = Some 1
       \<and> done_log dev2 = [\<lparr>done_buf = 0, done_state = VB2_BUF_STATE_DONE, done_vb = vb\<rparr>]
       \<and> vb_sequence vb = 0)"
proof -
  have h: "streaming (ex_dev (Some 0) (Some 0) [1]) \<noteq> 0"
    "cur_frm (ex_dev (Some 0) (Some 0) [1]) = Some 0"
    "next_frm (ex_dev (Some 0) (Some 0) [1]) = Some 0"
    "dma_queue (ex_dev (Some 0) (Some 0) [1]) = [1]" "(1::nat) \<noteq> 0"
    "UNICAM_IS vc4_regs OR UNICAM_PI0 vc4_regs \<noteq> 0"
    "rd_STA ex_frame_start \<noteq> 0"
    "rd_ISTA ex_frame_start AND (UNICAM_FSI vc4_regs OR UNICAM_LCI vc4_regs) \<noteq> 0"
    "rd_STA ex_frame_end \<noteq> 0" "frame_end vc4_regs ex_frame_end"
    by (simp_all add: ex_defs frame_end_def)
  show ?thesis
    using h starvation_recovery [OF h]
    by (auto simp add: ex_defs)
qed

subsection \<open>Stream stop\<close>

lemma fold_buffer_done:
  "fold (\<lambda>buf dev. vb2_buffer_done dev buf st) q dev =
     dev\<lparr>done_log := done_log dev @
       map (\<lambda>b. \<lparr>done_buf = b, done_state = st, done_vb = bufs dev b\<rparr>) q\<rparr>"
  by (induction q arbitrary: dev) (simp_all add: vb2_buffer_done_def)

lemma release_queue_eq:
  "release_queue dev st =
     dev\<lparr>done_log := done_log dev @
            map (\<lambda>b. \<lparr>done_buf = b, done_state = st, done_vb = bufs dev b\<rparr>) (dma_queue dev),
         dma_queue := []\<rparr>"
  by (simp add: release_queue_def fold_buffer_done)

lemmas stop_defs = unicam_stop_streaming_def release_queue_eq buffer_done_ptr_def
  unicam_disable_def unicam_runtime_put_def hw_call_def vb2_buffer_done_def Let_def

text \<open>
  C6. When both slots are set and the queued buffers are distinct and none of them is in a
  slot, \<open>unicam_stop_streaming\<close> hands back, in state \<open>VB2_BUF_STATE_ERROR\<close>, the
  queued buffers in order, then the current buffer, then the next buffer if it is another
  one: every held buffer exactly once (the list has no duplicates, and its elements
  are the queue and the slots), and the slots and the queue are empty afterwards.
\<close>

theorem stop_returns_every_buffer_once:
  assumes "cur_frm dev = Some c" and "next_frm dev = Some n"
    and "distinct (dma_queue dev)" and "c \<notin> set (dma_queue dev)" and "n \<notin> set (dma_queue dev)"
  shows "\<exists>dev'. unicam_stop_streaming dev = Some dev'
     \<and> cur_frm dev' = None \<and> next_frm dev' = None \<and> dma_queue dev' = []
     \<and> done_log dev' = done_log dev @
          map (\<lambda>b. \<lparr>done_buf = b, done_state = VB2_BUF_STATE_ERROR, done_vb = bufs dev b\<rparr>)
            (dma_queue dev @ (if c = n then [c] else [c, n]))
     \<and> distinct (dma_queue dev @ (if c = n then [c] else [c, n]))
     \<and> set (dma_queue dev @ (if c = n then [c] else [c, n])) = set (dma_queue dev) \<union> {c, n}"
  using assms by (auto simp add: stop_defs)

theorem stop_returns_every_buffer_once_witness:
  "cur_frm (ex_dev (Some 0) (Some 0) [1]) = Some 0
   \<and> next_frm (ex_dev (Some 0) (Some 0) [1]) = Some 0
   \<and> distinct (dma_queue (ex_dev (Some 0) (Some 0) [1]))
   \<and> 0 \<notin> set (dma_queue (ex_dev (Some 0) (Some 0) [1]))
   \<and> map_option (\<lambda>d. (map (\<lambda>x. (done_buf x, done_state x)) (done_log d), cur_frm d, next_frm d,
                        dma_queue d))
       (unicam_stop_streaming (ex_dev (Some 0) (Some 0) [1])) =
      Some ([(1, VB2_BUF_STATE_ERROR), (0, VB2_BUF_STATE_ERROR)], None, None, [])"
proof -
  have h: "cur_frm (ex_dev (Some 0) (Some 0) [1]) = Some 0"
    "next_frm (ex_dev (Some 0) (Some 0) [1]) = Some 0"
    "distinct (dma_queue (ex_dev (Some 0) (Some 0) [1]))"
    "0 \<notin> set (dma_queue (ex_dev (Some 0) (Some 0) [1]))"
    "0 \<notin> set (dma_queue (ex_dev (Some 0) (Some 0) [1]))"
    by (simp_all add: ex_dev_def)
  have q: "dma_queue (ex_dev (Some 0) (Some 0) [1]) = [1]"
    "done_log (ex_dev (Some 0) (Some 0) [1]) = []"
    by (simp_all add: ex_dev_def)
  obtain dev' where s: "unicam_stop_streaming (ex_dev (Some 0) (Some 0) [1]) = Some dev'"
    and f: "cur_frm dev' = None" "next_frm dev' = None" "dma_queue dev' = []"
      "done_log dev' = done_log (ex_dev (Some 0) (Some 0) [1]) @
          map (\<lambda>b. \<lparr>done_buf = b, done_state = VB2_BUF_STATE_ERROR,
                    done_vb = bufs (ex_dev (Some 0) (Some 0) [1]) b\<rparr>)
            (dma_queue (ex_dev (Some 0) (Some 0) [1]) @ (if (0::nat) = 0 then [0] else [0, 0]))"
    using stop_returns_every_buffer_once [OF h] by blast
  show ?thesis
    unfolding s by (simp add: f ex_dev_def)
qed

subsection \<open>Stream start\<close>

lemmas start_defs = unicam_start_streaming_def err_release_buffers_def err_pm_put_def
  err_disable_unicam_def unicam_start_rx_def release_queue_eq buffer_done_ptr_def
  unicam_disable_def unicam_runtime_put_def hw_call_def vb2_buffer_done_def Let_def

text \<open>
  C3, as the code has it. With at least one buffer queued, \<open>unicam_start_streaming\<close>
  takes exactly one, the head of the queue, and puts it in both slots, however many are
  queued: a successful start (return 0) leaves current and next equal and the other
  buffers in the queue, with the receiver started at that buffer's address. A failed start
  hands every buffer back in state \<open>VB2_BUF_STATE_QUEUED\<close> and clears the slots.
\<close>

theorem start_takes_one_buffer:
  assumes "dma_queue dev = b # rest"
  shows "\<exists>ret dev'. unicam_start_streaming h env dev = Some (ret, dev')
     \<and> (if ret = 0
         then cur_frm dev' = Some b \<and> next_frm dev' = Some b \<and> dma_queue dev' = rest
            \<and> streaming dev' = 1 \<and> sequence dev' = 0 \<and> done_log dev' = done_log dev
            \<and> Unicam_start_rx (plane_dma_addr (bufs dev b)) \<in> set (hw dev')
         else cur_frm dev' = None \<and> next_frm dev' = None \<and> dma_queue dev' = []
            \<and> done_log dev' = done_log dev @
                 map (\<lambda>x. \<lparr>done_buf = x, done_state = VB2_BUF_STATE_QUEUED, done_vb = bufs dev x\<rparr>)
                   (rest @ [b]))"
  using assms by (simp add: start_defs EINVAL_def)

text \<open>
  C3 as the spec words it fails: with two buffers queued, the start leaves buffer 0 in
  both slots and buffer 1 in the queue.
\<close>

theorem start_counterexample:
  "map_option (\<lambda>(ret, d). (ret, cur_frm d, next_frm d, dma_queue d))
     (unicam_start_streaming vc4_regs ex_env (ex_dev None None [0, 1])) =
   Some (0, Some 0, Some 0, [1])"
  by (simp add: start_defs ex_env_def ex_dev_def)

theorem start_takes_one_buffer_witness:
  "dma_queue (ex_dev None None [0, 1, 2]) = [0, 1, 2]
   \<and> (\<exists>dev'. unicam_start_streaming vc4_regs ex_env (ex_dev None None [0, 1, 2]) = Some (0, dev')
        \<and> cur_frm dev' = Some 0 \<and> next_frm dev' = Some 0 \<and> dma_queue dev' = [1, 2]
        \<and> streaming dev' = 1)"
proof -
  have h: "dma_queue (ex_dev None None [0, 1, 2]) = 0 # [1, 2]"
    by (simp add: ex_dev_def)
  have ev: "map_option fst (unicam_start_streaming vc4_regs ex_env (ex_dev None None [0, 1, 2]))
      = Some 0"
    by (simp add: start_defs ex_env_def ex_dev_def)
  obtain ret dev' where
    s: "unicam_start_streaming vc4_regs ex_env (ex_dev None None [0, 1, 2]) = Some (ret, dev')"
    and c: "if ret = 0
         then cur_frm dev' = Some 0 \<and> next_frm dev' = Some 0 \<and> dma_queue dev' = [1, 2]
            \<and> streaming dev' = 1 \<and> sequence dev' = 0
            \<and> done_log dev' = done_log (ex_dev None None [0, 1, 2])
            \<and> Unicam_start_rx (plane_dma_addr (bufs (ex_dev None None [0, 1, 2]) 0)) \<in> set (hw dev')
         else cur_frm dev' = None \<and> next_frm dev' = None \<and> dma_queue dev' = []
            \<and> done_log dev' = done_log (ex_dev None None [0, 1, 2]) @
                 map (\<lambda>x. \<lparr>done_buf = x, done_state = VB2_BUF_STATE_QUEUED,
                           done_vb = bufs (ex_dev None None [0, 1, 2]) x\<rparr>)
                   ([1, 2] @ [0])"
    using start_takes_one_buffer [OF h, of vc4_regs ex_env] by blast
  have r: "ret = 0" using ev s by simp
  show ?thesis
    using h s c unfolding r by (intro conjI exI [of _ dev']) simp_all
qed

text \<open>
  The return code of a start with a buffer queued: the first failure of a collaborator in
  the order of the calls, \<open>-EINVAL\<close> when the sensor asks for more lanes than the
  device has, and 0 otherwise. The function has no other error code, and none for the
  queue.
\<close>

lemma start_return_code:
  assumes "dma_queue dev = b # rest"
  shows "map_option fst (unicam_start_streaming h env dev) = Some
     (if pm_runtime_get_sync env < 0 then pm_runtime_get_sync env
      else if bus_type dev = V4L2_MBUS_CSI2_DPHY \<and> has_g_mbus_config env
              \<and> fst (g_mbus_config env) < 0
      then fst (g_mbus_config env)
      else if bus_type dev = V4L2_MBUS_CSI2_DPHY \<and> has_g_mbus_config env
              \<and> max_data_lanes dev
                  < drop_bit (ffs (V4L2_MBUS_CSI2_LANE_MASK h))
                      (snd (g_mbus_config env) AND V4L2_MBUS_CSI2_LANE_MASK h)
      then - EINVAL
      else if clk_set_rate env \<noteq> 0 then clk_set_rate env
      else if clk_prepare_enable env \<noteq> 0 then clk_prepare_enable env
      else if s_stream env 1 < 0 then s_stream env 1
      else 0)"
  using assms by (auto simp add: start_defs)

end
